theory Spec2Isabelle
  imports Complex_Main "HOL-Library.Char_ord" "HOL-Library.List_Lexorder"
begin

section \<open>Expense tracker: data model\<close>

text \<open>
  The development embeds the class \<^verbatim>\<open>ExpenseTracker\<close> of \<^verbatim>\<open>Expense_Tracker.py\<close>
  together with the two record classes \<^verbatim>\<open>Expense\<close> and \<^verbatim>\<open>Budget\<close>.

  Amounts are Python floats in the source. They are modelled as exact rationals (the
  specification calls them decimals); rounding errors of binary floating point, NaN and
  the infinities are outside the model.

  Python exceptions are values of type \<open>py_error\<close>.
\<close>

datatype py_error = ValueError | KeyError | TypeError | OverflowError

datatype ExpenseCategory =
  FOOD | TRANSPORTATION | ENTERTAINMENT | SHOPPING | BILLS | EDUCATION | HEALTHCARE | OTHER

text \<open>Iterating over the enumeration visits the members in definition order.\<close>

definition all_categories :: "ExpenseCategory list" where
  "all_categories =
     [FOOD, TRANSPORTATION, ENTERTAINMENT, SHOPPING, BILLS, EDUCATION, HEALTHCARE, OTHER]"

fun category_value :: "ExpenseCategory \<Rightarrow> string" where
  "category_value FOOD = ''Food''"
| "category_value TRANSPORTATION = ''Transportation''"
| "category_value ENTERTAINMENT = ''Entertainment''"
| "category_value SHOPPING = ''Shopping''"
| "category_value BILLS = ''Bills''"
| "category_value EDUCATION = ''Education''"
| "category_value HEALTHCARE = ''Healthcare''"
| "category_value OTHER = ''Other''"

text \<open>
  \<^verbatim>\<open>ExpenseCategory(s)\<close>: the member whose value is \<open>s\<close>; the enumeration raises
  ValueError for any other string.
\<close>

definition category_of_value :: "string \<Rightarrow> py_error + ExpenseCategory" where
  "category_of_value s =
     (case filter (\<lambda>c. category_value c = s) all_categories of
        [] \<Rightarrow> Inl ValueError
      | c # _ \<Rightarrow> Inr c)"

text \<open>
  The fields of \<^verbatim>\<open>Expense\<close> and \<^verbatim>\<open>Budget\<close> carry a prefix, since both classes
  have fields \<^verbatim>\<open>id\<close>, \<^verbatim>\<open>amount\<close> and \<^verbatim>\<open>category\<close>.
\<close>

record Expense =
  e_amount :: rat
  e_category :: ExpenseCategory
  e_description :: string
  e_date :: string
  e_id :: string

record Budget =
  b_category :: ExpenseCategory
  b_amount :: rat
  b_period :: string
  b_id :: string

section \<open>The calendar of the datetime library\<close>

text \<open>
  A \<^verbatim>\<open>datetime\<close> is stored by the library as its civil fields. Comparison is
  lexicographic on the fields, \<^verbatim>\<open>toordinal\<close> counts days from 0001-01-01 (day 1),
  and \<^verbatim>\<open>weekday()\<close> is \<^verbatim>\<open>(toordinal() + 6) % 7\<close>, Monday being 0.
\<close>

record datetime =
  year :: int
  month :: int
  day :: int
  hour :: int
  minute :: int
  second :: int

definition is_leap :: "int \<Rightarrow> bool" where
  "is_leap y = (y mod 4 = 0 \<and> (y mod 100 \<noteq> 0 \<or> y mod 400 = 0))"

definition days_in_month :: "int \<Rightarrow> int \<Rightarrow> int" where
  "days_in_month y m =
     (if m = 2 then (if is_leap y then 29 else 28)
      else if m = 4 \<or> m = 6 \<or> m = 9 \<or> m = 11 then 30 else 31)"

definition days_before_year :: "int \<Rightarrow> int" where
  "days_before_year y =
     (let z = y - 1 in z * 365 + z div 4 - z div 100 + z div 400)"

fun days_before_month_upto :: "int \<Rightarrow> nat \<Rightarrow> int" where
  "days_before_month_upto y 0 = 0"
| "days_before_month_upto y (Suc k) = days_before_month_upto y k + days_in_month y (int (Suc k))"

definition days_before_month :: "int \<Rightarrow> int \<Rightarrow> int" where
  "days_before_month y m = days_before_month_upto y (nat (m - 1))"

definition toordinal :: "datetime \<Rightarrow> int" where
  "toordinal d = days_before_year (year d) + days_before_month (year d) (month d) + day d"

definition weekday :: "datetime \<Rightarrow> int" where
  "weekday d = (toordinal d + 6) mod 7"

text \<open>The values the constructor of \<^verbatim>\<open>datetime\<close> accepts (MINYEAR is 1, MAXYEAR 9999).\<close>

definition valid_datetime :: "datetime \<Rightarrow> bool" where
  "valid_datetime d =
     (1 \<le> year d \<and> year d \<le> 9999 \<and> 1 \<le> month d \<and> month d \<le> 12 \<and>
      1 \<le> day d \<and> day d \<le> days_in_month (year d) (month d) \<and>
      0 \<le> hour d \<and> hour d \<le> 23 \<and> 0 \<le> minute d \<and> minute d \<le> 59 \<and>
      0 \<le> second d \<and> second d \<le> 59)"

definition datetime_le :: "datetime \<Rightarrow> datetime \<Rightarrow> bool" where
  "datetime_le a b =
     ((year a, month a, day a, hour a, minute a, second a)
        = (year b, month b, day b, hour b, minute b, second b)
      \<or> year a < year b
      \<or> (year a = year b \<and> (month a < month b
      \<or> (month a = month b \<and> (day a < day b
      \<or> (day a = day b \<and> (hour a < hour b
      \<or> (hour a = hour b \<and> (minute a < minute b
      \<or> (minute a = minute b \<and> second a < second b))))))))))"

text \<open>
  \<^verbatim>\<open>d - timedelta(days=k)\<close> for \<open>k \<ge> 0\<close>: the calendar day \<open>k\<close> days earlier, the
  time of day kept. The library raises OverflowError when the result would lie before
  0001-01-01. It is modelled by stepping back one calendar day at a time.
\<close>

definition prev_day :: "datetime \<Rightarrow> py_error + datetime" where
  "prev_day d =
     (if 1 < day d then Inr (d\<lparr>day := day d - 1\<rparr>)
      else if 1 < month d then
        Inr (d\<lparr>month := month d - 1, day := days_in_month (year d) (month d - 1)\<rparr>)
      else if 1 < year d then Inr (d\<lparr>year := year d - 1, month := 12, day := 31\<rparr>)
      else Inl OverflowError)"

fun minus_days :: "datetime \<Rightarrow> nat \<Rightarrow> py_error + datetime" where
  "minus_days d 0 = Inr d"
| "minus_days d (Suc k) =
     (case prev_day d of Inl e \<Rightarrow> Inl e | Inr d' \<Rightarrow> minus_days d' k)"

subsection \<open>Formatting and parsing with the format \<^verbatim>\<open>%Y-%m-%d\<close>\<close>

definition digit_char :: "int \<Rightarrow> char" where
  "digit_char n = ''0123456789'' ! nat (n mod 10)"

definition digit_val :: "char \<Rightarrow> int option" where
  "digit_val c = map_of (zip ''0123456789'' [0, 1, 2, 3, 4, 5, 6, 7, 8, 9]) c"

definition pad2 :: "int \<Rightarrow> string" where
  "pad2 n = [digit_char (n div 10), digit_char n]"

definition pad4 :: "int \<Rightarrow> string" where
  "pad4 n = [digit_char (n div 1000), digit_char (n div 100), digit_char (n div 10), digit_char n]"

text \<open>
  \<^verbatim>\<open>d.strftime("%Y-%m-%d")\<close>: the year with four digits, month and day with two, as
  the library documents the directives.
\<close>

definition strftime_ymd :: "datetime \<Rightarrow> string" where
  "strftime_ymd d = pad4 (year d) @ ''-'' @ pad2 (month d) @ ''-'' @ pad2 (day d)"

text \<open>\<^verbatim>\<open>d.strftime("%Y-%m-%d %H:%M:%S")\<close>\<close>

definition strftime_full :: "datetime \<Rightarrow> string" where
  "strftime_full d =
     strftime_ymd d @ '' '' @ pad2 (hour d) @ '':'' @ pad2 (minute d) @ '':'' @ pad2 (second d)"

text \<open>
  \<^verbatim>\<open>datetime.strptime(s, "%Y-%m-%d")\<close>. The library matches the regular expression
  \<^verbatim>\<open>(\d\d\d\d)-(1[0-2]|0[1-9]|[1-9])-(3[0-1]|[1-2]\d|0[1-9]|[1-9]| [1-9])\<close> at the start
  of the string, raises ValueError when it does not match or when characters remain,
  and then builds the datetime at midnight, whose constructor raises ValueError for a
  year 0 or a day the month does not have. \<open>None\<close> is the ValueError. Characters are
  bytes here, so digits are the ASCII digits.
\<close>

fun parse_year :: "string \<Rightarrow> (int \<times> string) option" where
  "parse_year (a # b # c # d # rest) =
     (case (digit_val a, digit_val b, digit_val c, digit_val d) of
        (Some x, Some y, Some z, Some w) \<Rightarrow> Some (x * 1000 + y * 100 + z * 10 + w, rest)
      | _ \<Rightarrow> None)"
| "parse_year _ = None"

fun expect_dash :: "string \<Rightarrow> string option" where
  "expect_dash (c # rest) = (if c = CHR ''-'' then Some rest else None)"
| "expect_dash [] = None"

text \<open>
  The month alternatives in the order of the expression; an alternative counts only
  if the dash follows it, which is what backtracking amounts to here.
\<close>

definition parse_month :: "string \<Rightarrow> (int \<times> string) option" where
  "parse_month s =
     (case s of
        a # b # rest \<Rightarrow>
          (if a = CHR ''1'' \<and> b \<in> set ''012'' \<and> expect_dash rest \<noteq> None
           then Some (10 + the (digit_val b), the (expect_dash rest))
           else if a = CHR ''0'' \<and> b \<in> set ''123456789'' \<and> expect_dash rest \<noteq> None
           then Some (the (digit_val b), the (expect_dash rest))
           else if a \<in> set ''123456789'' \<and> b = CHR ''-''
           then Some (the (digit_val a), rest)
           else None)
      | _ \<Rightarrow> None)"

text \<open>
  The day alternatives in order; nothing follows the day in the expression, so the first
  alternative that matches is taken and what it leaves must be empty.
\<close>

definition parse_day :: "string \<Rightarrow> (int \<times> string) option" where
  "parse_day s =
     (case s of
        [] \<Rightarrow> None
      | a # t \<Rightarrow>
          (case t of
             b # rest \<Rightarrow>
               (if a = CHR ''3'' \<and> b \<in> set ''01'' then Some (30 + the (digit_val b), rest)
                else if a \<in> set ''12'' \<and> digit_val b \<noteq> None
                then Some (the (digit_val a) * 10 + the (digit_val b), rest)
                else if a = CHR ''0'' \<and> b \<in> set ''123456789'' then Some (the (digit_val b), rest)
                else if a \<in> set ''123456789'' then Some (the (digit_val a), t)
                else if a = CHR '' '' \<and> b \<in> set ''123456789'' then Some (the (digit_val b), rest)
                else None)
           | [] \<Rightarrow> (if a \<in> set ''123456789'' then Some (the (digit_val a), []) else None)))"

definition strptime_ymd :: "string \<Rightarrow> datetime option" where
  "strptime_ymd s =
     (case parse_year s of
        None \<Rightarrow> None
      | Some (y, s1) \<Rightarrow>
          (case expect_dash s1 of
             None \<Rightarrow> None
           | Some s2 \<Rightarrow>
               (case parse_month s2 of
                  None \<Rightarrow> None
                | Some (m, s3) \<Rightarrow>
                    (case parse_day s3 of
                       None \<Rightarrow> None
                     | Some (d, s4) \<Rightarrow>
                         (if s4 \<noteq> [] then None
                          else if y < 1 \<or> d > days_in_month y m then None
                          else Some \<lparr>year = y, month = m, day = d,
                                     hour = 0, minute = 0, second = 0\<rparr>)))))"

section \<open>Queries on the ledger\<close>

text \<open>
  The list comprehension \<^verbatim>\<open>[exp for exp in expenses if start <= strptime(exp.date) <= end]\<close>:
  a date that does not parse raises ValueError and abandons the whole comprehension.
\<close>

fun filter_in_range :: "datetime \<Rightarrow> datetime \<Rightarrow> Expense list \<Rightarrow> Expense list option" where
  "filter_in_range start end [] = Some []"
| "filter_in_range start end (x # xs) =
     (case strptime_ymd (e_date x) of
        None \<Rightarrow> None
      | Some d \<Rightarrow>
          (case filter_in_range start end xs of
             None \<Rightarrow> None
           | Some ys \<Rightarrow>
               Some (if datetime_le start d \<and> datetime_le d end then x # ys else ys)))"

text \<open>The body of the \<^verbatim>\<open>try\<close> block of the date filters; \<open>None\<close> is the ValueError.\<close>

definition filter_by_dates :: "string \<Rightarrow> string \<Rightarrow> Expense list \<Rightarrow> Expense list option" where
  "filter_by_dates start_date end_date xs =
     (case strptime_ymd start_date of
        None \<Rightarrow> None
      | Some start \<Rightarrow>
          (case strptime_ymd end_date of
             None \<Rightarrow> None
           | Some end \<Rightarrow> filter_in_range start end xs))"

text \<open>Truth value of an optional string argument: \<^verbatim>\<open>None\<close> and the empty string are false.\<close>

fun truthy :: "string option \<Rightarrow> bool" where
  "truthy None = False"
| "truthy (Some s) = (s \<noteq> [])"

text \<open>\<^verbatim>\<open>get_expenses_by_category\<close>\<close>

definition get_expenses_by_category :: "Expense list \<Rightarrow> ExpenseCategory \<Rightarrow> Expense list" where
  "get_expenses_by_category expenses c = filter (\<lambda>exp. e_category exp = c) expenses"

text \<open>\<^verbatim>\<open>get_expenses_by_date_range\<close>: the empty list when a date does not parse.\<close>

definition get_expenses_by_date_range :: "Expense list \<Rightarrow> string \<Rightarrow> string \<Rightarrow> Expense list" where
  "get_expenses_by_date_range expenses start_date end_date =
     (case filter_by_dates start_date end_date expenses of None \<Rightarrow> [] | Some ys \<Rightarrow> ys)"

text \<open>
  \<^verbatim>\<open>get_total_spent\<close>: the category filter first (a member of the enumeration is always
  true), then the date filter on what the category filter left; when a date does not
  parse, the date filter is skipped.
\<close>

definition get_total_spent ::
  "Expense list \<Rightarrow> ExpenseCategory option \<Rightarrow> string option \<Rightarrow> string option \<Rightarrow> rat" where
  "get_total_spent expenses category start_date end_date =
     (let expenses1 = (case category of
                         None \<Rightarrow> expenses
                       | Some c \<Rightarrow> filter (\<lambda>exp. e_category exp = c) expenses);
          expenses2 = (if truthy start_date \<and> truthy end_date
                       then (case filter_by_dates (the start_date) (the end_date) expenses1 of
                               None \<Rightarrow> expenses1
                             | Some ys \<Rightarrow> ys)
                       else expenses1)
      in sum_list (map e_amount expenses2))"

text \<open>The invariant of the ledger: every amount is positive.\<close>

definition ledger_ok :: "Expense list \<Rightarrow> bool" where
  "ledger_ok expenses = list_all (\<lambda>exp. 0 < e_amount exp) expenses"

text \<open>Membership of an expense in the inclusive window \<open>[start, end]\<close>.\<close>

definition in_range :: "datetime \<Rightarrow> datetime \<Rightarrow> Expense \<Rightarrow> bool" where
  "in_range start end x =
     (case strptime_ymd (e_date x) of
        None \<Rightarrow> False
      | Some d \<Rightarrow> datetime_le start d \<and> datetime_le d end)"

section \<open>Example data\<close>

definition ledger1 :: "Expense list" where
  "ledger1 = [\<lparr>e_amount = 50, e_category = FOOD, e_description = ''lunch'',
                e_date = ''2024-01-15'', e_id = ''2024-01-15_00''\<rparr>,
              \<lparr>e_amount = 20, e_category = BILLS, e_description = ''power'',
                e_date = ''2024-01-20'', e_id = ''2024-01-20_01''\<rparr>,
              \<lparr>e_amount = 7, e_category = FOOD, e_description = ''snack'',
                e_date = ''2024-02-02'', e_id = ''2024-02-02_02''\<rparr>]"

section \<open>The tracker and its operations\<close>

text \<open>
  A Python \<^verbatim>\<open>dict\<close> with string keys is an association list with distinct keys in
  insertion order: assigning to a present key replaces the value where it stands,
  assigning to a new key appends.
\<close>

type_synonym 'v dict = "(string \<times> 'v) list"

fun dict_set :: "string \<Rightarrow> 'v \<Rightarrow> 'v dict \<Rightarrow> 'v dict" where
  "dict_set k v [] = [(k, v)]"
| "dict_set k v (p # ps) = (if fst p = k then (k, v) # ps else p # dict_set k v ps)"

definition dict_get :: "'v dict \<Rightarrow> string \<Rightarrow> 'v option" where
  "dict_get d k = map_of d k"

definition dict_values :: "'v dict \<Rightarrow> 'v list" where
  "dict_values d = map snd d"

text \<open>Sequencing of computations that may raise.\<close>

definition bind_err :: "py_error + 'a \<Rightarrow> ('a \<Rightarrow> py_error + 'b) \<Rightarrow> py_error + 'b" where
  "bind_err r f = (case r of Inl e \<Rightarrow> Inl e | Inr x \<Rightarrow> f x)"

text \<open>
  JSON values, as \<^verbatim>\<open>json.load\<close> returns them and \<^verbatim>\<open>json.dump\<close> takes them. The
  content of the data file is such a value, or text that does not parse, or the file is
  missing.
\<close>

datatype json =
  JNull | JBool bool | JNum rat | JStr string | JArr "json list" | JObj "(string \<times> json) list"

datatype file_content = Missing | Unparsable | Content json

record ExpenseTracker =
  username :: string
  expenses :: "Expense list"
  budgets :: "Budget dict"
  data_file :: file_content

text \<open>
  The constructor of \<^verbatim>\<open>Expense\<close>. The clock reading \<open>now\<close> and the result \<open>token\<close> of
  \<^verbatim>\<open>secrets.token_hex(8)\<close> are parameters.
\<close>

definition new_Expense ::
  "datetime \<Rightarrow> string \<Rightarrow> rat \<Rightarrow> ExpenseCategory \<Rightarrow> string \<Rightarrow> string option \<Rightarrow> Expense" where
  "new_Expense now token amount category description date =
     (let d = (if truthy date then the date else strftime_ymd now)
      in \<lparr>e_amount = amount, e_category = category, e_description = description,
          e_date = d, e_id = d @ ''_'' @ token\<rparr>)"

definition budget_id :: "ExpenseCategory \<Rightarrow> string \<Rightarrow> string" where
  "budget_id category period = ''budget_'' @ category_value category @ ''_'' @ period"

definition new_Budget :: "ExpenseCategory \<Rightarrow> rat \<Rightarrow> string \<Rightarrow> Budget" where
  "new_Budget category amount period =
     \<lparr>b_category = category, b_amount = amount, b_period = period,
      b_id = budget_id category period\<rparr>"

definition Expense_to_dict :: "Expense \<Rightarrow> json" where
  "Expense_to_dict e =
     JObj [(''id'', JStr (e_id e)), (''amount'', JNum (e_amount e)),
           (''category'', JStr (category_value (e_category e))),
           (''description'', JStr (e_description e)), (''date'', JStr (e_date e))]"

definition Budget_to_dict :: "Budget \<Rightarrow> json" where
  "Budget_to_dict b =
     JObj [(''id'', JStr (b_id b)), (''category'', JStr (category_value (b_category b))),
           (''amount'', JNum (b_amount b)), (''period'', JStr (b_period b))]"

text \<open>\<^verbatim>\<open>save_data\<close>: the whole file is rewritten.\<close>

definition save_data :: "datetime \<Rightarrow> ExpenseTracker \<Rightarrow> ExpenseTracker" where
  "save_data now t =
     t\<lparr>data_file := Content (JObj
          [(''username'', JStr (username t)),
           (''last_updated'', JStr (strftime_full now)),
           (''expenses'', JArr (map Expense_to_dict (expenses t))),
           (''budgets'', JArr (map Budget_to_dict (dict_values (budgets t))))])\<rparr>"

text \<open>
  The replies of the operations: the second component of the returned pair, with the
  values the source interpolates into the message.
\<close>

datatype reply =
  Amount_must_be_positive
| Expense_added string
| Expense_deleted
| Expense_not_found
| Expense_updated
| Budget_cannot_be_negative
| Budget_set string rat string

text \<open>\<^verbatim>\<open>add_expense\<close>\<close>

definition add_expense ::
  "datetime \<Rightarrow> string \<Rightarrow> ExpenseTracker \<Rightarrow> rat \<Rightarrow> ExpenseCategory \<Rightarrow> string \<Rightarrow> string option
   \<Rightarrow> (bool \<times> reply) \<times> ExpenseTracker" where
  "add_expense now token t amount category description date =
     (if amount \<le> 0 then ((False, Amount_must_be_positive), t)
      else
        let expense = new_Expense now token amount category description date;
            t1 = t\<lparr>expenses := expenses t @ [expense]\<rparr>
        in ((True, Expense_added (e_id expense)), save_data now t1))"

text \<open>\<^verbatim>\<open>delete_expense\<close>: the list is rebuilt before the lengths are compared.\<close>

definition delete_expense ::
  "datetime \<Rightarrow> ExpenseTracker \<Rightarrow> string \<Rightarrow> (bool \<times> reply) \<times> ExpenseTracker" where
  "delete_expense now t expense_id =
     (let initial_length = length (expenses t);
          t1 = t\<lparr>expenses := filter (\<lambda>exp. e_id exp \<noteq> expense_id) (expenses t)\<rparr>
      in if length (expenses t1) < initial_length
         then ((True, Expense_deleted), save_data now t1)
         else ((False, Expense_not_found), t1))"

text \<open>
  \<^verbatim>\<open>update_expense\<close>: the loop stops at the first expense with the id. The amount is
  checked before any field is assigned.
\<close>

definition apply_overrides ::
  "Expense \<Rightarrow> rat option \<Rightarrow> ExpenseCategory option \<Rightarrow> string option \<Rightarrow> string option \<Rightarrow> Expense" where
  "apply_overrides x amount category description date =
     (let x1 = (case amount of None \<Rightarrow> x | Some a \<Rightarrow> x\<lparr>e_amount := a\<rparr>);
          x2 = (case category of None \<Rightarrow> x1 | Some c \<Rightarrow> x1\<lparr>e_category := c\<rparr>);
          x3 = (case description of None \<Rightarrow> x2 | Some s \<Rightarrow> x2\<lparr>e_description := s\<rparr>)
      in (case date of None \<Rightarrow> x3 | Some s \<Rightarrow> x3\<lparr>e_date := s\<rparr>))"

datatype update_result = Not_found | Invalid_amount | Updated "Expense list"

fun update_loop ::
  "Expense list \<Rightarrow> string \<Rightarrow> rat option \<Rightarrow> ExpenseCategory option \<Rightarrow> string option
   \<Rightarrow> string option \<Rightarrow> update_result" where
  "update_loop [] expense_id amount category description date = Not_found"
| "update_loop (x # xs) expense_id amount category description date =
     (if e_id x = expense_id then
        (if amount \<noteq> None \<and> the amount \<le> 0 then Invalid_amount
         else Updated (apply_overrides x amount category description date # xs))
      else
        (case update_loop xs expense_id amount category description date of
           Updated ys \<Rightarrow> Updated (x # ys)
         | r \<Rightarrow> r))"

definition update_expense ::
  "datetime \<Rightarrow> ExpenseTracker \<Rightarrow> string \<Rightarrow> rat option \<Rightarrow> ExpenseCategory option
   \<Rightarrow> string option \<Rightarrow> string option \<Rightarrow> (bool \<times> reply) \<times> ExpenseTracker" where
  "update_expense now t expense_id amount category description date =
     (case update_loop (expenses t) expense_id amount category description date of
        Not_found \<Rightarrow> ((False, Expense_not_found), t)
      | Invalid_amount \<Rightarrow> ((False, Amount_must_be_positive), t)
      | Updated ys \<Rightarrow> ((True, Expense_updated), save_data now (t\<lparr>expenses := ys\<rparr>)))"

text \<open>\<^verbatim>\<open>get_expense\<close>: the first expense with the id.\<close>

definition get_expense :: "ExpenseTracker \<Rightarrow> string \<Rightarrow> Expense option" where
  "get_expense t expense_id = find (\<lambda>exp. e_id exp = expense_id) (expenses t)"

text \<open>\<^verbatim>\<open>set_budget\<close>: the only check is on the amount.\<close>

definition set_budget ::
  "datetime \<Rightarrow> ExpenseTracker \<Rightarrow> ExpenseCategory \<Rightarrow> rat \<Rightarrow> string
   \<Rightarrow> (bool \<times> reply) \<times> ExpenseTracker" where
  "set_budget now t category amount period =
     (if amount < 0 then ((False, Budget_cannot_be_negative), t)
      else
        let budget = new_Budget category amount period;
            t1 = t\<lparr>budgets := dict_set (b_id budget) budget (budgets t)\<rparr>
        in ((True, Budget_set (category_value category) amount period), save_data now t1))"


definition now1 :: datetime where
  "now1 = \<lparr>year = 2024, month = 1, day = 17, hour = 10, minute = 30, second = 0\<rparr>"

text \<open>The tracker of a user without a data file, as \<^verbatim>\<open>__init__\<close> leaves it.\<close>

definition tracker0 :: ExpenseTracker where
  "tracker0 = \<lparr>username = ''alice'', expenses = [], budgets = [], data_file = Missing\<rparr>"

definition tracker1 :: ExpenseTracker where
  "tracker1 = \<lparr>username = ''alice'', expenses = ledger1,
               budgets = [(''budget_Food_weekly'', new_Budget FOOD 80 ''weekly''),
                          (''budget_Food_monthly'', new_Budget FOOD 100 ''monthly''),
                          (''budget_Bills_daily'', new_Budget BILLS 0 ''daily'')],
               data_file = Missing\<rparr>"

section \<open>Budgets and aggregation\<close>

text \<open>
  \<^verbatim>\<open>round(x, 2)\<close>: the nearest multiple of 1/100, a tie going to the even multiple.
\<close>

definition round_half_even :: "rat \<Rightarrow> int" where
  "round_half_even y =
     (let f = \<lfloor>y\<rfloor>; r = y - of_int f
      in if r < 1 / 2 then f else if 1 / 2 < r then f + 1
         else if even f then f else f + 1)"

definition py_round2 :: "rat \<Rightarrow> rat" where
  "py_round2 x = of_int (round_half_even (x * 100)) / 100"

text \<open>
  The dictionary \<^verbatim>\<open>get_budget_status\<close> returns: \<^verbatim>\<open>{'has_budget': False}\<close>, or
  \<^verbatim>\<open>has_budget\<close> true with the six other entries.
\<close>

record StatusFields =
  s_budget_amount :: rat
  s_spent :: rat
  s_remaining :: rat
  s_percentage_used :: rat
  s_is_over_budget :: bool
  s_period :: string

datatype BudgetStatus = No_budget | Has_budget StatusFields

fun has_budget :: "BudgetStatus \<Rightarrow> bool" where
  "has_budget No_budget = False"
| "has_budget (Has_budget _) = True"

text \<open>
  The window of \<^verbatim>\<open>get_total_spent_by_period\<close>, as the pair \<^verbatim>\<open>(start_date, end_date)\<close>
  its branches assign. Every period other than daily and weekly takes the last branch.
\<close>

definition period_window :: "datetime \<Rightarrow> string \<Rightarrow> py_error + (string \<times> string)" where
  "period_window now period =
     (if period = ''daily'' then Inr (strftime_ymd now, strftime_ymd now)
      else if period = ''weekly'' then
        bind_err (minus_days now (nat (weekday now)))
          (\<lambda>d. Inr (strftime_ymd d, strftime_ymd now))
      else Inr (strftime_ymd (now\<lparr>day := 1\<rparr>), strftime_ymd now))"

definition get_total_spent_by_period ::
  "datetime \<Rightarrow> Expense list \<Rightarrow> ExpenseCategory \<Rightarrow> string \<Rightarrow> py_error + rat" where
  "get_total_spent_by_period now exps category period =
     bind_err (period_window now period)
       (\<lambda>(start_date, end_date).
          Inr (get_total_spent exps (Some category) (Some start_date) (Some end_date)))"

text \<open>\<^verbatim>\<open>get_budget_status\<close>\<close>

definition get_budget_status ::
  "datetime \<Rightarrow> ExpenseTracker \<Rightarrow> ExpenseCategory \<Rightarrow> string \<Rightarrow> py_error + BudgetStatus" where
  "get_budget_status now t category period =
     (case dict_get (budgets t) (budget_id category period) of
        None \<Rightarrow> Inr No_budget
      | Some budget \<Rightarrow>
          bind_err (get_total_spent_by_period now (expenses t) category period)
            (\<lambda>spent.
               let remaining = b_amount budget - spent;
                   percentage_used =
                     (if 0 < b_amount budget then (spent / b_amount budget) * 100 else 0)
               in Inr (Has_budget
                    \<lparr>s_budget_amount = b_amount budget, s_spent = spent,
                     s_remaining = remaining,
                     s_percentage_used = py_round2 percentage_used,
                     s_is_over_budget = (b_amount budget < spent),
                     s_period = period\<rparr>)))"

text \<open>
  \<^verbatim>\<open>get_total_spent_by_category\<close>: \<^verbatim>\<open>category_totals[k] += a\<close> raises KeyError for a
  key that is not in the dictionary.
\<close>

fun add_totals :: "rat dict \<Rightarrow> Expense list \<Rightarrow> py_error + rat dict" where
  "add_totals d [] = Inr d"
| "add_totals d (x # xs) =
     (case dict_get d (category_value (e_category x)) of
        None \<Rightarrow> Inl KeyError
      | Some v \<Rightarrow> add_totals (dict_set (category_value (e_category x)) (v + e_amount x) d) xs)"

definition get_total_spent_by_category ::
  "Expense list \<Rightarrow> string option \<Rightarrow> string option \<Rightarrow> py_error + rat dict" where
  "get_total_spent_by_category exps start_date end_date =
     (let category_totals = map (\<lambda>category. (category_value category, 0)) all_categories;
          exps1 = (if truthy start_date \<and> truthy end_date
                   then get_expenses_by_date_range exps (the start_date) (the end_date)
                   else exps)
      in add_totals category_totals exps1)"

text \<open>\<^verbatim>\<open>get_spending_summary\<close>\<close>

record CategorySummary =
  c_spent :: rat
  c_budget_status :: BudgetStatus
  c_percentage_of_total :: rat

record Summary =
  sm_total_spent :: rat
  sm_date_range :: "string \<times> string"
  sm_categories :: "CategorySummary dict"

text \<open>
  The budget whose period is used for a category: the first monthly one among the
  budgets of the category, else the first of them.
\<close>

definition preferred :: "Budget \<Rightarrow> Budget list \<Rightarrow> Budget" where
  "preferred m ms =
     (case find (\<lambda>b. b_period b = ''monthly'') (m # ms) of Some b \<Rightarrow> b | None \<Rightarrow> m)"

text \<open>The body of the loop over the categories.\<close>

definition category_entry ::
  "datetime \<Rightarrow> ExpenseTracker \<Rightarrow> rat dict \<Rightarrow> rat \<Rightarrow> ExpenseCategory
   \<Rightarrow> py_error + CategorySummary" where
  "category_entry now t category_totals total_spent category =
     (case dict_get category_totals (category_value category) of
        None \<Rightarrow> Inl KeyError
      | Some spent \<Rightarrow>
          bind_err
            (case filter (\<lambda>b. b_category b = category) (dict_values (budgets t)) of
               [] \<Rightarrow> Inr No_budget
             | m # ms \<Rightarrow> get_budget_status now t category (b_period (preferred m ms)))
            (\<lambda>budget_status.
               Inr \<lparr>c_spent = spent, c_budget_status = budget_status,
                    c_percentage_of_total = (if 0 < total_spent then spent / total_spent * 100 else 0)\<rparr>))"

fun summary_loop ::
  "datetime \<Rightarrow> ExpenseTracker \<Rightarrow> rat dict \<Rightarrow> rat \<Rightarrow> ExpenseCategory list
   \<Rightarrow> CategorySummary dict \<Rightarrow> py_error + CategorySummary dict" where
  "summary_loop now t category_totals total_spent [] acc = Inr acc"
| "summary_loop now t category_totals total_spent (c # cs) acc =
     bind_err (category_entry now t category_totals total_spent c)
       (\<lambda>entry. summary_loop now t category_totals total_spent cs
                  (dict_set (category_value c) entry acc))"

definition get_spending_summary ::
  "datetime \<Rightarrow> ExpenseTracker \<Rightarrow> string option \<Rightarrow> string option \<Rightarrow> py_error + Summary" where
  "get_spending_summary now t start_date end_date =
     bind_err
       (if truthy start_date then Inr (the start_date)
        else bind_err (minus_days now 30) (\<lambda>d. Inr (strftime_ymd d)))
       (\<lambda>start_date1.
          let end_date1 = (if truthy end_date then the end_date else strftime_ymd now)
          in bind_err
               (get_total_spent_by_category (expenses t) (Some start_date1) (Some end_date1))
               (\<lambda>category_totals.
                  let total_spent = sum_list (dict_values category_totals)
                  in bind_err (summary_loop now t category_totals total_spent all_categories [])
                       (\<lambda>cats. Inr \<lparr>sm_total_spent = total_spent,
                                     sm_date_range = (start_date1, end_date1),
                                     sm_categories = cats\<rparr>)))"

text \<open>
  The invariant of the budget set: distinct keys, and each budget stored under its own
  id, which is the id of its category and period.
\<close>

definition budgets_ok :: "Budget dict \<Rightarrow> bool" where
  "budgets_ok d =
     (distinct (map fst d) \<and>
      list_all (\<lambda>(k, b). k = b_id b \<and> b_id b = budget_id (b_category b) (b_period b)) d)"

text \<open>A datetime with the time of day set to midnight, as parsing a date yields it.\<close>

definition midnight :: "datetime \<Rightarrow> datetime" where
  "midnight d = d\<lparr>hour := 0, minute := 0, second := 0\<rparr>"


text \<open>Comparison of the calendar days of two datetimes.\<close>

definition date_le :: "datetime \<Rightarrow> datetime \<Rightarrow> bool" where
  "date_le a b =
     (year a < year b \<or>
      (year a = year b \<and> (month a < month b \<or> (month a = month b \<and> day a \<le> day b))))"

text \<open>The stored date of an expense parses.\<close>

definition date_parses :: "Expense \<Rightarrow> bool" where
  "date_parses x = (strptime_ymd (e_date x) \<noteq> None)"

section \<open>Properties of the queries\<close>

lemmas parse_defs = strptime_ymd_def parse_month_def parse_day_def digit_val_def
  days_in_month_def is_leap_def

lemma filter_in_range_Some:
  "filter_in_range start end xs = Some ys \<Longrightarrow> ys = filter (in_range start end) xs"
  by (induction xs arbitrary: ys) (auto simp: in_range_def split: option.splits if_splits)

lemma filter_in_range_filter:
  "filter_in_range start end xs = Some ys \<Longrightarrow>
   filter_in_range start end (filter P xs) = Some (filter P ys)"
  by (induction xs arbitrary: ys) (auto split: option.splits if_splits)

lemma filter_by_dates_Some:
  "filter_by_dates s e xs = Some ys \<Longrightarrow> \<exists>Q. ys = filter Q xs"
  by (auto simp: filter_by_dates_def split: option.splits dest: filter_in_range_Some)

lemma filter_by_dates_filter:
  "filter_by_dates s e xs = Some ys \<Longrightarrow>
   filter_by_dates s e (filter P xs) = Some (filter P ys)"
  by (auto simp: filter_by_dates_def split: option.splits dest: filter_in_range_filter)

lemma sum_filter_le:
  "list_all (\<lambda>x. 0 \<le> f x) xs \<Longrightarrow> sum_list (map f (filter P xs)) \<le> (sum_list (map f xs) :: rat)"
  by (induction xs) auto

lemma ledger_ok_nonneg: "ledger_ok xs \<Longrightarrow> list_all (\<lambda>x. 0 \<le> e_amount x) xs"
  by (induction xs) (auto simp: ledger_ok_def)

lemma ledger_ok_filter: "ledger_ok xs \<Longrightarrow> ledger_ok (filter P xs)"
  by (induction xs) (auto simp: ledger_ok_def)

lemma get_total_spent_le_aux:
  assumes "ledger_ok exps"
  shows "get_total_spent exps (Some c) s e \<le> get_total_spent exps None s e"
proof (cases "truthy s \<and> truthy e")
  case False
  then show ?thesis
    using sum_filter_le [OF ledger_ok_nonneg [OF assms], of "\<lambda>exp. e_category exp = c"]
    by (auto simp: get_total_spent_def Let_def)
next
  case True
  let ?C = "\<lambda>exp. e_category exp = c"
  show ?thesis
  proof (cases "filter_by_dates (the s) (the e) exps")
    case None
    have rhs: "get_total_spent exps None s e = sum_list (map e_amount exps)"
      using True None by (simp add: get_total_spent_def Let_def)
    have a: "sum_list (map e_amount (filter ?C exps)) \<le> sum_list (map e_amount exps)"
      using sum_filter_le [OF ledger_ok_nonneg [OF assms]] by simp
    show ?thesis
    proof (cases "filter_by_dates (the s) (the e) (filter ?C exps)")
      case None
      then show ?thesis using True rhs a by (simp add: get_total_spent_def Let_def)
    next
      case (Some zs)
      then obtain Q where "zs = filter Q (filter ?C exps)"
        using filter_by_dates_Some by blast
      moreover have "sum_list (map e_amount (filter Q (filter ?C exps)))
                     \<le> sum_list (map e_amount (filter ?C exps))"
        using sum_filter_le [OF ledger_ok_nonneg [OF ledger_ok_filter [OF assms]]] by simp
      ultimately show ?thesis using True rhs a Some by (simp add: get_total_spent_def Let_def)
    qed
  next
    case (Some ys)
    then obtain Q where ys: "ys = filter Q exps"
      using filter_by_dates_Some by blast
    have "filter_by_dates (the s) (the e) (filter ?C exps) = Some (filter ?C ys)"
      using Some by (rule filter_by_dates_filter)
    moreover have "sum_list (map e_amount (filter ?C ys)) \<le> sum_list (map e_amount ys)"
      using sum_filter_le [OF ledger_ok_nonneg [OF ledger_ok_filter [OF assms]]] ys by simp
    ultimately show ?thesis using True Some by (simp add: get_total_spent_def Let_def)
  qed
qed

lemma get_total_spent_conj_aux:
  assumes "strptime_ymd S = Some start" and "strptime_ymd E = Some end"
    and "S \<noteq> []" and "E \<noteq> []"
    and "list_all (\<lambda>x. strptime_ymd (e_date x) \<noteq> None) exps"
  shows "get_total_spent exps (Some c) (Some S) (Some E) =
           sum_list (map e_amount
             (filter (\<lambda>x. e_category x = c \<and> in_range start end x) exps))"
    and "get_total_spent exps None (Some S) (Some E) =
           sum_list (map e_amount (filter (in_range start end) exps))"
proof -
  have all: "\<And>xs. list_all (\<lambda>x. strptime_ymd (e_date x) \<noteq> None) xs \<Longrightarrow>
                 filter_in_range start end xs = Some (filter (in_range start end) xs)"
  proof -
    fix xs :: "Expense list"
    show "list_all (\<lambda>x. strptime_ymd (e_date x) \<noteq> None) xs \<Longrightarrow>
          filter_in_range start end xs = Some (filter (in_range start end) xs)"
      by (induction xs) (auto simp: in_range_def split: option.splits)
  qed
  have f: "filter_by_dates S E exps = Some (filter (in_range start end) exps)"
    using assms(1,2) all [OF assms(5)] by (simp add: filter_by_dates_def)
  have g: "filter_by_dates S E (filter (\<lambda>x. e_category x = c) exps) =
             Some (filter (\<lambda>x. e_category x = c) (filter (in_range start end) exps))"
    using f by (rule filter_by_dates_filter)
  have h: "filter (\<lambda>x. e_category x = c) (filter (in_range start end) exps) =
           filter (\<lambda>x. e_category x = c \<and> in_range start end x) exps"
    by (simp add: conj_commute)
  show "get_total_spent exps (Some c) (Some S) (Some E) =
           sum_list (map e_amount
             (filter (\<lambda>x. e_category x = c \<and> in_range start end x) exps))"
    using g h assms(3,4) by (simp add: get_total_spent_def Let_def)
  show "get_total_spent exps None (Some S) (Some E) =
           sum_list (map e_amount (filter (in_range start end) exps))"
    using f assms(3,4) by (simp add: get_total_spent_def Let_def)
qed

text \<open>
  Claim C1. On a ledger whose amounts are positive, the total with a category filter
  and a date range never exceeds the total with the date range alone; and when the two
  bounds and every stored date parse, the first is the sum over the exps that are in
  the category and in the window, the second the sum over the exps in the window:
  both filters narrow the same stored list.
\<close>

theorem get_total_spent_category_le:
  assumes "ledger_ok exps"
  shows "get_total_spent exps (Some c) S E \<le> get_total_spent exps None S E \<and>
         (S = Some s \<and> E = Some e \<and> s \<noteq> [] \<and> e \<noteq> [] \<and>
          strptime_ymd s = Some start \<and> strptime_ymd e = Some end \<and>
          list_all (\<lambda>x. strptime_ymd (e_date x) \<noteq> None) exps \<longrightarrow>
          get_total_spent exps (Some c) S E =
            sum_list (map e_amount
              (filter (\<lambda>x. e_category x = c \<and> in_range start end x) exps)) \<and>
          get_total_spent exps None S E =
            sum_list (map e_amount (filter (in_range start end) exps)))"
  using get_total_spent_le_aux [OF assms] get_total_spent_conj_aux by auto

theorem get_total_spent_category_le_witness:
  "ledger_ok ledger1 \<and>
   get_total_spent ledger1 (Some FOOD) (Some ''2024-01-01'') (Some ''2024-01-31'') = 50 \<and>
   get_total_spent ledger1 None (Some ''2024-01-01'') (Some ''2024-01-31'') = 70 \<and>
   get_total_spent ledger1 (Some FOOD) (Some ''2024-01-01'') (Some ''2024-01-31'')
     \<le> get_total_spent ledger1 None (Some ''2024-01-01'') (Some ''2024-01-31'')"
proof -
  let ?s = "\<lparr>year = 2024, month = 1, day = 1, hour = 0, minute = 0, second = 0\<rparr>"
  let ?e = "\<lparr>year = 2024, month = 1, day = 31, hour = 0, minute = 0, second = 0\<rparr>"
  have ok: "ledger_ok ledger1" by (simp add: ledger_ok_def ledger1_def)
  have ps: "strptime_ymd ''2024-01-01'' = Some ?s" by (simp add: parse_defs)
  have pe: "strptime_ymd ''2024-01-31'' = Some ?e" by (simp add: parse_defs)
  have al: "list_all (\<lambda>x. strptime_ymd (e_date x) \<noteq> None) ledger1"
    by (simp add: ledger1_def parse_defs)
  have r: "sum_list (map e_amount
             (filter (\<lambda>x. e_category x = FOOD \<and> in_range ?s ?e x) ledger1)) = 50"
    by (simp add: ledger1_def in_range_def parse_defs datetime_le_def)
  have r2: "sum_list (map e_amount (filter (in_range ?s ?e) ledger1)) = 70"
    by (simp add: ledger1_def in_range_def parse_defs datetime_le_def)
  show ?thesis
    using ok ps pe al r r2
      get_total_spent_category_le [OF ok, of FOOD "Some ''2024-01-01''" "Some ''2024-01-31''"
        "''2024-01-01''" "''2024-01-31''" ?s ?e]
    by simp
qed

section \<open>Properties of the ledger operations\<close>

lemma find_append_fresh:
  "\<forall>y \<in> set xs. \<not> P y \<Longrightarrow> P x \<Longrightarrow> find P (xs @ [x]) = Some x"
  by (induction xs) auto

lemma find_filter_None: "find P (filter (\<lambda>x. \<not> P x) xs) = None"
  by (induction xs) auto

lemma length_filter_less:
  "x \<in> set xs \<Longrightarrow> \<not> P x \<Longrightarrow> length (filter P xs) < length xs"
  by (induction xs) (auto simp: less_Suc_eq_le)

text \<open>
  Claim C7. When the amount is positive and the generated id is not yet in the ledger,
  \<^verbatim>\<open>add_expense\<close> succeeds, reports the id, and \<^verbatim>\<open>get_expense\<close> of that id returns
  the record that was added: the amount, category and description given and the date
  given (today's date when none was given). For an id that is in the ledger,
  \<^verbatim>\<open>delete_expense\<close> succeeds and \<^verbatim>\<open>get_expense\<close> of the id then returns nothing.
\<close>

theorem add_get_delete_get:
  "(0 < amount \<and>
    e_id (new_Expense now token amount category description date) \<notin> set (map e_id (expenses t)) \<longrightarrow>
      (let expense = new_Expense now token amount category description date;
           r = add_expense now token t amount category description date
       in fst r = (True, Expense_added (e_id expense)) \<and>
          get_expense (snd r) (e_id expense) = Some expense \<and>
          e_amount expense = amount \<and> e_category expense = category \<and>
          e_description expense = description \<and>
          e_date expense = (if truthy date then the date else strftime_ymd now))) \<and>
   (i \<in> set (map e_id (expenses t)) \<longrightarrow>
      fst (delete_expense now t i) = (True, Expense_deleted) \<and>
      get_expense (snd (delete_expense now t i)) i = None)"
proof (intro conjI impI)
  assume a: "0 < amount \<and>
    e_id (new_Expense now token amount category description date) \<notin> set (map e_id (expenses t))"
  let ?x = "new_Expense now token amount category description date"
  have "\<forall>y \<in> set (expenses t). e_id y \<noteq> e_id ?x"
    using a by (metis image_eqI set_map)
  then have "find (\<lambda>exp. e_id exp = e_id ?x) (expenses t @ [?x]) = Some ?x"
    by (intro find_append_fresh) simp_all
  then show "let expense = new_Expense now token amount category description date;
           r = add_expense now token t amount category description date
       in fst r = (True, Expense_added (e_id expense)) \<and>
          get_expense (snd r) (e_id expense) = Some expense \<and>
          e_amount expense = amount \<and> e_category expense = category \<and>
          e_description expense = description \<and>
          e_date expense = (if truthy date then the date else strftime_ymd now)"
    using a by (simp add: add_expense_def Let_def get_expense_def save_data_def new_Expense_def)
next
  assume "i \<in> set (map e_id (expenses t))"
  then obtain x where "x \<in> set (expenses t)" "e_id x = i" by auto
  then have "length (filter (\<lambda>exp. e_id exp \<noteq> i) (expenses t)) < length (expenses t)"
    by (intro length_filter_less [of x]) auto
  then show "fst (delete_expense now t i) = (True, Expense_deleted)"
    by (simp add: delete_expense_def Let_def)
next
  show "get_expense (snd (delete_expense now t i)) i = None"
    using find_filter_None [of "\<lambda>exp. e_id exp = i" "expenses t"]
    by (simp add: delete_expense_def Let_def get_expense_def save_data_def)
qed

theorem add_get_delete_get_witness:
  "fst (add_expense now1 ''a1b2c3d4e5f60718'' tracker1 50 FOOD ''lunch'' (Some ''2024-01-15''))
     = (True, Expense_added ''2024-01-15_a1b2c3d4e5f60718'') \<and>
   get_expense (snd (add_expense now1 ''a1b2c3d4e5f60718'' tracker1 50 FOOD ''lunch''
       (Some ''2024-01-15''))) ''2024-01-15_a1b2c3d4e5f60718''
     = Some \<lparr>e_amount = 50, e_category = FOOD, e_description = ''lunch'',
              e_date = ''2024-01-15'', e_id = ''2024-01-15_a1b2c3d4e5f60718''\<rparr> \<and>
   ''2024-01-20_01'' \<in> set (map e_id (expenses tracker1)) \<and>
   get_expense (snd (delete_expense now1 tracker1 ''2024-01-20_01'')) ''2024-01-20_01'' = None"
proof -
  have f: "(0::rat) < 50 \<and>
      e_id (new_Expense now1 ''a1b2c3d4e5f60718'' 50 FOOD ''lunch'' (Some ''2024-01-15''))
        \<notin> set (map e_id (expenses tracker1))"
    by (simp add: new_Expense_def tracker1_def ledger1_def)
  have g: "''2024-01-20_01'' \<in> set (map e_id (expenses tracker1))"
    by (simp add: tracker1_def ledger1_def)
  have e: "new_Expense now1 ''a1b2c3d4e5f60718'' 50 FOOD ''lunch'' (Some ''2024-01-15'')
     = \<lparr>e_amount = 50, e_category = FOOD, e_description = ''lunch'',
              e_date = ''2024-01-15'', e_id = ''2024-01-15_a1b2c3d4e5f60718''\<rparr>"
    by (simp add: new_Expense_def)
  show ?thesis
    using f g e add_get_delete_get [of 50 now1 "''a1b2c3d4e5f60718''" FOOD "''lunch''"
        "Some ''2024-01-15''" tracker1 "''2024-01-20_01''"]
    by (simp add: Let_def)
qed

lemma update_loop_absent:
  "expense_id \<notin> set (map e_id xs) \<Longrightarrow>
   update_loop xs expense_id amount category description date = Not_found"
  by (induction xs) auto

lemma update_loop_invalid:
  "expense_id \<in> set (map e_id xs) \<Longrightarrow> amount = Some a \<Longrightarrow> a \<le> 0 \<Longrightarrow>
   update_loop xs expense_id amount category description date = Invalid_amount"
  by (induction xs) auto

lemma update_loop_valid:
  "expense_id \<in> set (map e_id xs) \<Longrightarrow> \<forall>a. amount = Some a \<longrightarrow> 0 < a \<Longrightarrow>
   \<exists>pre x post. xs = pre @ x # post \<and> (\<forall>y \<in> set pre. e_id y \<noteq> expense_id) \<and>
     e_id x = expense_id \<and>
     update_loop xs expense_id amount category description date =
       Updated (pre @ apply_overrides x amount category description date # post)"
proof (induction xs)
  case Nil
  then show ?case by simp
next
  case (Cons z zs)
  show ?case
  proof (cases "e_id z = expense_id")
    case True
    have "update_loop (z # zs) expense_id amount category description date =
            Updated ([] @ apply_overrides z amount category description date # zs)"
      using True Cons.prems(2) by (cases amount) auto
    then show ?thesis using True by (intro exI [of _ "[]"] exI [of _ z] exI [of _ zs]) simp
  next
    case False
    then have "expense_id \<in> set (map e_id zs)" using Cons.prems(1) by auto
    from Cons.IH [OF this Cons.prems(2)] obtain pre x post where
      h: "zs = pre @ x # post" "\<forall>y \<in> set pre. e_id y \<noteq> expense_id" "e_id x = expense_id"
         "update_loop zs expense_id amount category description date =
            Updated (pre @ apply_overrides x amount category description date # post)"
      by blast
    show ?thesis
      using h False
      by (intro exI [of _ "z # pre"] exI [of _ x] exI [of _ post]) simp
  qed
qed

lemma apply_overrides_fields:
  "e_id (apply_overrides x amount category description date) = e_id x"
  "e_amount (apply_overrides x amount category description date) =
     (case amount of None \<Rightarrow> e_amount x | Some a \<Rightarrow> a)"
  "e_category (apply_overrides x amount category description date) =
     (case category of None \<Rightarrow> e_category x | Some c \<Rightarrow> c)"
  "e_description (apply_overrides x amount category description date) =
     (case description of None \<Rightarrow> e_description x | Some s \<Rightarrow> s)"
  "e_date (apply_overrides x amount category description date) =
     (case date of None \<Rightarrow> e_date x | Some s \<Rightarrow> s)"
  by (simp_all add: apply_overrides_def Let_def split: option.splits)

text \<open>
  Claim C8. \<^verbatim>\<open>update_expense\<close> fails with the not-found reply when no expense has the
  id, and with the amount reply when an expense has the id and the amount supplied is
  not positive; in both cases the tracker, its data file included, is returned as it
  was. Otherwise it succeeds and replaces the first expense with the id by a record
  with the same id, in which every field with an override has the override and every
  other field its previous value; all other expenses stay as they were.
\<close>

theorem update_expense_frame:
  "(expense_id \<notin> set (map e_id (expenses t)) \<longrightarrow>
      update_expense now t expense_id amount category description date =
        ((False, Expense_not_found), t)) \<and>
   (expense_id \<in> set (map e_id (expenses t)) \<and> (\<exists>a. amount = Some a \<and> a \<le> 0) \<longrightarrow>
      update_expense now t expense_id amount category description date =
        ((False, Amount_must_be_positive), t)) \<and>
   (expense_id \<in> set (map e_id (expenses t)) \<and> (\<forall>a. amount = Some a \<longrightarrow> 0 < a) \<longrightarrow>
      (\<exists>pre x x' post.
         expenses t = pre @ x # post \<and> (\<forall>y \<in> set pre. e_id y \<noteq> expense_id) \<and>
         e_id x = expense_id \<and>
         update_expense now t expense_id amount category description date =
           ((True, Expense_updated), save_data now (t\<lparr>expenses := pre @ x' # post\<rparr>)) \<and>
         e_id x' = e_id x \<and>
         e_amount x' = (case amount of None \<Rightarrow> e_amount x | Some a \<Rightarrow> a) \<and>
         e_category x' = (case category of None \<Rightarrow> e_category x | Some c \<Rightarrow> c) \<and>
         e_description x' = (case description of None \<Rightarrow> e_description x | Some s \<Rightarrow> s) \<and>
         e_date x' = (case date of None \<Rightarrow> e_date x | Some s \<Rightarrow> s)))"
proof (intro conjI impI)
  assume "expense_id \<notin> set (map e_id (expenses t))"
  then show "update_expense now t expense_id amount category description date =
        ((False, Expense_not_found), t)"
    by (simp add: update_expense_def update_loop_absent)
next
  assume "expense_id \<in> set (map e_id (expenses t)) \<and> (\<exists>a. amount = Some a \<and> a \<le> 0)"
  then obtain a where "expense_id \<in> set (map e_id (expenses t))" "amount = Some a" "a \<le> 0"
    by blast
  then have "update_loop (expenses t) expense_id amount category description date = Invalid_amount"
    by (rule update_loop_invalid)
  then show "update_expense now t expense_id amount category description date =
        ((False, Amount_must_be_positive), t)"
    by (simp add: update_expense_def)
next
  assume a: "expense_id \<in> set (map e_id (expenses t)) \<and> (\<forall>a. amount = Some a \<longrightarrow> 0 < a)"
  from update_loop_valid [of expense_id "expenses t" amount category description date] a
  obtain pre x post where
    h: "expenses t = pre @ x # post" "\<forall>y \<in> set pre. e_id y \<noteq> expense_id" "e_id x = expense_id"
       "update_loop (expenses t) expense_id amount category description date =
          Updated (pre @ apply_overrides x amount category description date # post)"
    by blast
  have u: "update_expense now t expense_id amount category description date =
           ((True, Expense_updated),
            save_data now (t\<lparr>expenses := pre @ apply_overrides x amount category description date # post\<rparr>))"
    using h(4) by (simp add: update_expense_def)
  show "\<exists>pre x x' post.
         expenses t = pre @ x # post \<and> (\<forall>y \<in> set pre. e_id y \<noteq> expense_id) \<and>
         e_id x = expense_id \<and>
         update_expense now t expense_id amount category description date =
           ((True, Expense_updated), save_data now (t\<lparr>expenses := pre @ x' # post\<rparr>)) \<and>
         e_id x' = e_id x \<and>
         e_amount x' = (case amount of None \<Rightarrow> e_amount x | Some a \<Rightarrow> a) \<and>
         e_category x' = (case category of None \<Rightarrow> e_category x | Some c \<Rightarrow> c) \<and>
         e_description x' = (case description of None \<Rightarrow> e_description x | Some s \<Rightarrow> s) \<and>
         e_date x' = (case date of None \<Rightarrow> e_date x | Some s \<Rightarrow> s)"
    using h(1,2,3) u apply_overrides_fields [of x amount category description date]
    by (intro exI [of _ pre] exI [of _ x]
          exI [of _ "apply_overrides x amount category description date"] exI [of _ post])
       simp
qed

theorem update_expense_frame_witness:
  "''2024-01-20_01'' \<in> set (map e_id (expenses tracker1)) \<and>
   ''nothing'' \<notin> set (map e_id (expenses tracker1)) \<and>
   update_expense now1 tracker1 ''nothing'' (Some 0) None None None =
     ((False, Expense_not_found), tracker1) \<and>
   update_expense now1 tracker1 ''2024-01-20_01'' (Some 0) None None None =
     ((False, Amount_must_be_positive), tracker1) \<and>
   (\<exists>pre x x' post.
         expenses tracker1 = pre @ x # post \<and>
         e_id x = ''2024-01-20_01'' \<and>
         update_expense now1 tracker1 ''2024-01-20_01'' (Some 25) None None None =
           ((True, Expense_updated), save_data now1 (tracker1\<lparr>expenses := pre @ x' # post\<rparr>)) \<and>
         e_id x' = e_id x \<and> e_amount x' = 25 \<and> e_category x' = e_category x \<and>
         e_description x' = e_description x \<and> e_date x' = e_date x)"
proof -
  have p: "''2024-01-20_01'' \<in> set (map e_id (expenses tracker1))"
    by (simp add: tracker1_def ledger1_def)
  have q: "''nothing'' \<notin> set (map e_id (expenses tracker1))"
    by (simp add: tracker1_def ledger1_def)
  have 1: "update_expense now1 tracker1 ''nothing'' (Some 0) None None None =
     ((False, Expense_not_found), tracker1)"
    using q update_expense_frame [of "''nothing''" tracker1 now1 "Some 0" None None None]
    by blast
  have 2: "update_expense now1 tracker1 ''2024-01-20_01'' (Some 0) None None None =
     ((False, Amount_must_be_positive), tracker1)"
    using p update_expense_frame [of "''2024-01-20_01''" tracker1 now1 "Some 0" None None None]
    by simp
  have 3: "\<exists>pre x x' post.
         expenses tracker1 = pre @ x # post \<and>
         e_id x = ''2024-01-20_01'' \<and>
         update_expense now1 tracker1 ''2024-01-20_01'' (Some 25) None None None =
           ((True, Expense_updated), save_data now1 (tracker1\<lparr>expenses := pre @ x' # post\<rparr>)) \<and>
         e_id x' = e_id x \<and> e_amount x' = 25 \<and> e_category x' = e_category x \<and>
         e_description x' = e_description x \<and> e_date x' = e_date x"
    using p update_expense_frame [of "''2024-01-20_01''" tracker1 now1 "Some 25" None None None]
    by simp blast
  show ?thesis using p q 1 2 3 by blast
qed

section \<open>Properties of the budget set\<close>

lemma dict_get_dict_set_same: "dict_get (dict_set k v d) k = Some v"
  by (induction d) (auto simp: dict_get_def)

lemma dict_get_dict_set_other: "k' \<noteq> k \<Longrightarrow> dict_get (dict_set k v d) k' = dict_get d k'"
  by (induction d) (auto simp: dict_get_def)

lemma keys_dict_set:
  "map fst (dict_set k v d) = (if k \<in> set (map fst d) then map fst d else map fst d @ [k])"
  by (induction d) auto

lemma distinct_dict_set: "distinct (map fst d) \<Longrightarrow> distinct (map fst (dict_set k v d))"
  by (simp add: keys_dict_set)

text \<open>
  Claim C9 does not hold as stated: \<^verbatim>\<open>set_budget\<close> has no check on the period. With
  the period \<^verbatim>\<open>yearly\<close> the call succeeds and stores a budget.
\<close>

theorem set_budget_unknown_period_counterexample:
  "''yearly'' \<notin> {''daily'', ''weekly'', ''monthly''} \<and>
   fst (set_budget now1 tracker0 FOOD 100 ''yearly'') = (True, Budget_set ''Food'' 100 ''yearly'') \<and>
   budgets (snd (set_budget now1 tracker0 FOOD 100 ''yearly'')) =
     [(''budget_Food_yearly'',
       \<lparr>b_category = FOOD, b_amount = 100, b_period = ''yearly'', b_id = ''budget_Food_yearly''\<rparr>)] \<and>
   budgets (snd (set_budget now1 tracker0 FOOD 100 ''yearly'')) \<noteq> budgets tracker0"
  by (simp add: set_budget_def new_Budget_def budget_id_def tracker0_def save_data_def Let_def)

text \<open>
  Claim C9, amended. \<^verbatim>\<open>set_budget\<close> fails when the amount is negative and returns
  the tracker as it was. With any other amount it succeeds for every period string:
  the budget is stored under the id of its category and period, an entry already
  stored under that id is overwritten where it stands, a new id is appended, and all
  other entries and the expenses stay as they were.
\<close>

theorem set_budget_effect:
  "(amount < 0 \<longrightarrow>
      set_budget now t category amount period = ((False, Budget_cannot_be_negative), t)) \<and>
   (0 \<le> amount \<longrightarrow>
      fst (set_budget now t category amount period) =
        (True, Budget_set (category_value category) amount period) \<and>
      dict_get (budgets (snd (set_budget now t category amount period)))
          (budget_id category period) =
        Some \<lparr>b_category = category, b_amount = amount, b_period = period,
               b_id = budget_id category period\<rparr> \<and>
      map fst (budgets (snd (set_budget now t category amount period))) =
        (if budget_id category period \<in> set (map fst (budgets t)) then map fst (budgets t)
         else map fst (budgets t) @ [budget_id category period]) \<and>
      (\<forall>k. k \<noteq> budget_id category period \<longrightarrow>
         dict_get (budgets (snd (set_budget now t category amount period))) k =
           dict_get (budgets t) k) \<and>
      expenses (snd (set_budget now t category amount period)) = expenses t)"
  by (simp add: set_budget_def new_Budget_def save_data_def Let_def
        dict_get_dict_set_same dict_get_dict_set_other keys_dict_set)

theorem set_budget_effect_witness:
  "set_budget now1 tracker1 FOOD (- 5) ''monthly'' = ((False, Budget_cannot_be_negative), tracker1) \<and>
   fst (set_budget now1 tracker1 FOOD 250 ''monthly'') = (True, Budget_set ''Food'' 250 ''monthly'') \<and>
   dict_get (budgets (snd (set_budget now1 tracker1 FOOD 250 ''monthly''))) ''budget_Food_monthly'' =
     Some \<lparr>b_category = FOOD, b_amount = 250, b_period = ''monthly'',
            b_id = ''budget_Food_monthly''\<rparr> \<and>
   map fst (budgets (snd (set_budget now1 tracker1 FOOD 250 ''monthly''))) =
     [''budget_Food_weekly'', ''budget_Food_monthly'', ''budget_Bills_daily''] \<and>
   dict_get (budgets (snd (set_budget now1 tracker1 FOOD 250 ''monthly''))) ''budget_Food_weekly'' =
     Some \<lparr>b_category = FOOD, b_amount = 80, b_period = ''weekly'',
            b_id = ''budget_Food_weekly''\<rparr>"
proof -
  have k: "map fst (budgets tracker1) =
           [''budget_Food_weekly'', ''budget_Food_monthly'', ''budget_Bills_daily'']"
    by (simp add: tracker1_def)
  have w: "dict_get (budgets tracker1) ''budget_Food_weekly'' =
     Some \<lparr>b_category = FOOD, b_amount = 80, b_period = ''weekly'',
            b_id = ''budget_Food_weekly''\<rparr>"
    by (simp add: tracker1_def dict_get_def new_Budget_def budget_id_def)
  have i: "budget_id FOOD ''monthly'' = ''budget_Food_monthly''"
    by (simp add: budget_id_def)
  show ?thesis
    using k w i set_budget_effect [of "- 5" now1 tracker1 FOOD "''monthly''"]
      set_budget_effect [of 250 now1 tracker1 FOOD "''monthly''"]
    by simp
qed

section \<open>Properties of the calendar\<close>

lemma div_succ:
  assumes "0 < n"
  shows "((z::int) + 1) div n = z div n + (if (z + 1) mod n = 0 then 1 else 0)"
proof -
  define q where "q = (z + 1) div n"
  define r where "r = (z + 1) mod n"
  have e: "z + 1 = n * q + r" by (simp add: q_def r_def)
  have rb: "0 \<le> r" "r < n" using assms by (simp_all add: r_def)
  show ?thesis
  proof (cases "r = 0")
    case True
    have "z = n * (q - 1) + (n - 1)" using e True by (simp add: algebra_simps)
    then have "z div n = q - 1" using assms by (intro int_div_pos_eq [of z n "q - 1" "n - 1"]) auto
    then show ?thesis using True by (simp add: q_def r_def)
  next
    case False
    have "z = n * q + (r - 1)" using e by simp
    then have "z div n = q" using rb False by (intro int_div_pos_eq [of z n q "r - 1"]) auto
    then show ?thesis using False by (simp add: q_def r_def)
  qed
qed

lemma days_before_year_step:
  "days_before_year (y + 1) = days_before_year y + (if is_leap y then 366 else 365)"
proof -
  define A where "A = (y - 1) div 4"
  define B where "B = (y - 1) div 100"
  define C where "C = (y - 1) div 400"
  define P4 where "P4 \<longleftrightarrow> y mod 4 = 0"
  define P100 where "P100 \<longleftrightarrow> y mod 100 = 0"
  define P400 where "P400 \<longleftrightarrow> y mod 400 = 0"
  have a: "y div 4 = A + (if P4 then 1 else 0)"
    using div_succ [of 4 "y - 1"] by (simp add: A_def P4_def)
  have b: "y div 100 = B + (if P100 then 1 else 0)"
    using div_succ [of 100 "y - 1"] by (simp add: B_def P100_def)
  have c: "y div 400 = C + (if P400 then 1 else 0)"
    using div_succ [of 400 "y - 1"] by (simp add: C_def P400_def)
  have d: "P400 \<Longrightarrow> P100"
    unfolding P400_def P100_def using dvd_trans [of 100 400 y] by (simp add: mod_eq_0_iff_dvd)
  have e: "P100 \<Longrightarrow> P4"
    unfolding P100_def P4_def using dvd_trans [of 4 100 y] by (simp add: mod_eq_0_iff_dvd)
  have lp: "is_leap y = (P4 \<and> (\<not> P100 \<or> P400))"
    by (simp add: is_leap_def P4_def P100_def P400_def)
  have l: "days_before_year (y + 1) = y * 365 + y div 4 - y div 100 + y div 400"
    by (simp add: days_before_year_def)
  have r: "days_before_year y = y * 365 - 365 + A - B + C"
    by (simp add: days_before_year_def Let_def A_def B_def C_def left_diff_distrib)
  show ?thesis
    unfolding l r a b c lp using d e by (cases P4; cases P100; cases P400; simp)
qed

lemma days_before_year_nonneg: "1 \<le> y \<Longrightarrow> 0 \<le> days_before_year y"
proof -
  assume y: "1 \<le> y"
  have "(y - 1) div 100 \<le> (y - 1) div 4"
    using y by (intro zdiv_mono2) auto
  moreover have "0 \<le> (y - 1) div 400" using y by simp
  moreover have "0 \<le> (y - 1) * 365" using y by simp
  ultimately show ?thesis by (simp add: days_before_year_def Let_def)
qed

lemma days_before_month_step:
  "2 \<le> m \<Longrightarrow> days_before_month y m = days_before_month y (m - 1) + days_in_month y (m - 1)"
proof -
  assume m: "2 \<le> m"
  then have "nat (m - 1) = Suc (nat (m - 1 - 1))" by simp
  moreover have "int (Suc (nat (m - 1 - 1))) = m - 1" using m by simp
  ultimately show ?thesis unfolding days_before_month_def by (simp del: of_nat_Suc)
qed

lemma days_before_month_13:
  "days_before_month y 12 + 31 = (if is_leap y then 366 else 365)"
  by (simp add: days_before_month_def eval_nat_numeral days_in_month_def)

lemma days_before_month_1: "days_before_month y 1 = 0"
  by (simp add: days_before_month_def)

lemma days_in_month_pos: "1 \<le> days_in_month y m"
  by (simp add: days_in_month_def)

lemma prev_day_ok:
  assumes "valid_datetime d" and "prev_day d = Inr d'"
  shows "valid_datetime d' \<and> toordinal d' = toordinal d - 1 \<and>
         hour d' = hour d \<and> minute d' = minute d \<and> second d' = second d"
proof (cases "1 < day d")
  case True
  then show ?thesis using assms
    by (auto simp: prev_day_def valid_datetime_def toordinal_def)
next
  case False
  then have d1: "day d = 1" using assms(1) by (simp add: valid_datetime_def)
  show ?thesis
  proof (cases "1 < month d")
    case True
    then have e: "d' = d\<lparr>month := month d - 1, day := days_in_month (year d) (month d - 1)\<rparr>"
      using assms(2) d1 by (simp add: prev_day_def)
    have "days_before_month (year d) (month d) =
          days_before_month (year d) (month d - 1) + days_in_month (year d) (month d - 1)"
      using True by (intro days_before_month_step) simp
    then show ?thesis using e d1 True assms(1) days_in_month_pos [of "year d" "month d - 1"]
      by (simp add: valid_datetime_def toordinal_def)
  next
    case False
    then have m1: "month d = 1" using assms(1) by (simp add: valid_datetime_def)
    then have y: "1 < year d" and e: "d' = d\<lparr>year := year d - 1, month := 12, day := 31\<rparr>"
      using assms(2) d1 by (auto simp: prev_day_def split: if_splits)
    have "days_before_year (year d - 1 + 1) =
          days_before_year (year d - 1) + (if is_leap (year d - 1) then 366 else 365)"
      by (rule days_before_year_step)
    then have "days_before_year (year d) =
               days_before_year (year d - 1) + days_before_month (year d - 1) 12 + 31"
      using days_before_month_13 [of "year d - 1"] by simp
    then show ?thesis using e d1 m1 y assms(1)
      by (simp add: valid_datetime_def toordinal_def days_before_month_1 days_in_month_def)
  qed
qed

lemma days_before_month_upto_nonneg: "0 \<le> days_before_month_upto y k"
  by (induction k) (auto simp: days_in_month_def simp del: of_nat_Suc)

lemma toordinal_pos: "valid_datetime d \<Longrightarrow> 1 \<le> toordinal d"
  using days_before_year_nonneg [of "year d"] days_before_month_upto_nonneg [of "year d" "nat (month d - 1)"]
  by (simp add: valid_datetime_def toordinal_def days_before_month_def)

lemma days_before_year_1: "days_before_year 1 = 0"
  by (simp add: days_before_year_def)

lemma prev_day_overflow:
  assumes "valid_datetime d" and "prev_day d = Inl e"
  shows "toordinal d = 1"
proof -
  have "day d = 1 \<and> month d = 1 \<and> year d = 1"
    using assms by (auto simp: prev_day_def valid_datetime_def split: if_splits)
  then show ?thesis
    by (simp add: toordinal_def days_before_year_1 days_before_month_1)
qed

lemma minus_days_ok:
  "valid_datetime d \<Longrightarrow> int k < toordinal d \<Longrightarrow>
   \<exists>d'. minus_days d k = Inr d' \<and> valid_datetime d' \<and> toordinal d' = toordinal d - int k \<and>
        hour d' = hour d \<and> minute d' = minute d \<and> second d' = second d"
proof (induction k arbitrary: d)
  case 0
  then show ?case by simp
next
  case (Suc k)
  show ?case
  proof (cases "prev_day d")
    case (Inl e)
    then have "toordinal d = 1" using Suc.prems(1) by (rule prev_day_overflow [rotated])
    then show ?thesis using Suc.prems(2) by simp
  next
    case (Inr d1)
    from prev_day_ok [OF Suc.prems(1) Inr]
    have v: "valid_datetime d1" and o: "toordinal d1 = toordinal d - 1"
      and tm: "hour d1 = hour d" "minute d1 = minute d" "second d1 = second d" by simp_all
    have "int k < toordinal d1" using o Suc.prems(2) by simp
    from Suc.IH [OF v this] obtain d' where
      "minus_days d1 k = Inr d'" "valid_datetime d'" "toordinal d' = toordinal d1 - int k"
      "hour d' = hour d1" "minute d' = minute d1" "second d' = second d1" by blast
    then show ?thesis using Inr o tm by simp
  qed
qed

subsection \<open>Parsing what was formatted\<close>

lemma upto_0_9: "[0..9] = [0, 1, 2, 3, 4, 5, 6, 7, 8, 9 :: int]"
  by (simp add: upto.simps)

lemma digit_char_values:
  "digit_char 0 = CHR ''0''" "digit_char 1 = CHR ''1''" "digit_char 2 = CHR ''2''"
  "digit_char 3 = CHR ''3''" "digit_char 4 = CHR ''4''" "digit_char 5 = CHR ''5''"
  "digit_char 6 = CHR ''6''" "digit_char 7 = CHR ''7''" "digit_char 8 = CHR ''8''"
  "digit_char 9 = CHR ''9''"
  by (simp_all add: digit_char_def)

lemma digit_char_mod: "digit_char n = digit_char (n mod 10)"
  by (simp add: digit_char_def)

lemma digit_val_digit_char: "digit_val (digit_char n) = Some (n mod 10)"
proof -
  have "n mod 10 \<in> set [0..9]" by simp
  then have "n mod 10 \<in> set [0, 1, 2, 3, 4, 5, 6, 7, 8, 9 :: int]" by (simp only: upto_0_9)
  then have "n mod 10 = 0 \<or> n mod 10 = 1 \<or> n mod 10 = 2 \<or> n mod 10 = 3 \<or> n mod 10 = 4 \<or>
     n mod 10 = 5 \<or> n mod 10 = 6 \<or> n mod 10 = 7 \<or> n mod 10 = 8 \<or> n mod 10 = 9" by simp
  then have "digit_val (digit_char (n mod 10)) = Some (n mod 10)"
    by (elim disjE) (simp_all add: digit_char_values digit_val_def)
  then show ?thesis using digit_char_mod [of n] by simp
qed

lemma four_digits:
  assumes "0 \<le> y" and "y \<le> 9999"
  shows "(y div 1000) mod 10 * 1000 + (y div 100) mod 10 * 100 + (y div 10) mod 10 * 10 + y mod 10
         = (y::int)"
proof -
  define a where "a = y div 10"
  define b where "b = a div 10"
  define c where "c = b div 10"
  have b': "b = y div 100" by (simp add: b_def a_def zdiv_zmult2_eq)
  have c': "c = y div 1000" by (simp add: c_def b' zdiv_zmult2_eq)
  have "c < 10" "0 \<le> c" using assms by (simp_all add: c')
  then have cm: "c mod 10 = c" by simp
  have "y = 10 * a + y mod 10" by (simp add: a_def)
  moreover have "a = 10 * b + a mod 10" by (simp add: b_def)
  moreover have "b = 10 * c + b mod 10" by (simp add: c_def)
  ultimately have "c mod 10 * 1000 + b mod 10 * 100 + a mod 10 * 10 + y mod 10 = y"
    using cm by linarith
  then show ?thesis unfolding c' b' a_def .
qed

lemma parse_year_pad4:
  assumes "0 \<le> y" and "y \<le> 9999"
  shows "parse_year (pad4 y @ rest) = Some (y, rest)"
proof -
  have "parse_year (pad4 y @ rest) =
     Some ((y div 1000) mod 10 * 1000 + (y div 100) mod 10 * 100 + (y div 10) mod 10 * 10 + y mod 10,
           rest)"
    by (simp add: pad4_def digit_val_digit_char)
  then show ?thesis by (simp only: four_digits [OF assms])
qed

lemma upto_1_12: "[1..12] = [1, 2, 3, 4, 5, 6, 7, 8, 9, 10, 11, 12 :: int]"
  by (simp add: upto.simps)

lemma upto_1_31:
  "[1..31] = [1, 2, 3, 4, 5, 6, 7, 8, 9, 10, 11, 12, 13, 14, 15, 16, 17, 18, 19, 20, 21, 22, 23, 24, 25, 26, 27, 28, 29, 30, 31 :: int]"
  by (simp add: upto.simps)

lemma pad2_values:
  "pad2 1 = ''01''" "pad2 2 = ''02''" "pad2 3 = ''03''" "pad2 4 = ''04''" "pad2 5 = ''05''"
  "pad2 6 = ''06''" "pad2 7 = ''07''" "pad2 8 = ''08''" "pad2 9 = ''09''" "pad2 10 = ''10''"
  "pad2 11 = ''11''" "pad2 12 = ''12''" "pad2 13 = ''13''" "pad2 14 = ''14''" "pad2 15 =
  ''15''" "pad2 16 = ''16''" "pad2 17 = ''17''" "pad2 18 = ''18''" "pad2 19 = ''19''" "pad2
  20 = ''20''" "pad2 21 = ''21''" "pad2 22 = ''22''" "pad2 23 = ''23''" "pad2 24 = ''24''"
  "pad2 25 = ''25''" "pad2 26 = ''26''" "pad2 27 = ''27''" "pad2 28 = ''28''" "pad2 29 =
  ''29''" "pad2 30 = ''30''" "pad2 31 = ''31''"
  by (simp_all add: pad2_def digit_char_def)

lemma parse_month_pad2:
  assumes "1 \<le> m" and "m \<le> 12"
  shows "parse_month (pad2 m @ ''-'' @ rest) = Some (m, rest)"
proof -
  have "m \<in> set [1..12]" using assms by simp
  then have "m \<in> set [1, 2, 3, 4, 5, 6, 7, 8, 9, 10, 11, 12 :: int]" by (simp only: upto_1_12)
  then have "m = 1 \<or> m = 2 \<or> m = 3 \<or> m = 4 \<or> m = 5 \<or> m = 6 \<or> m = 7 \<or> m = 8 \<or> m = 9 \<or> m = 10 \<or> m = 11 \<or> m = 12" by simp
  then show ?thesis
    by (elim disjE) (simp_all add: pad2_values parse_month_def digit_val_def)
qed

lemma parse_day_pad2:
  assumes "1 \<le> d" and "d \<le> 31"
  shows "parse_day (pad2 d) = Some (d, [])"
proof -
  have "d \<in> set [1..31]" using assms by simp
  then have "d \<in> set [1, 2, 3, 4, 5, 6, 7, 8, 9, 10, 11, 12, 13, 14, 15, 16, 17, 18, 19, 20, 21, 22, 23, 24, 25, 26, 27, 28, 29, 30, 31 :: int]" by (simp only: upto_1_31)
  then have "d = 1 \<or> d = 2 \<or> d = 3 \<or> d = 4 \<or> d = 5 \<or> d = 6 \<or> d = 7 \<or> d = 8
      \<or> d = 9 \<or> d = 10 \<or> d = 11 \<or> d = 12 \<or> d = 13 \<or> d = 14 \<or> d = 15
      \<or> d = 16 \<or> d = 17 \<or> d = 18 \<or> d = 19 \<or> d = 20 \<or> d = 21 \<or> d = 22
      \<or> d = 23 \<or> d = 24 \<or> d = 25 \<or> d = 26 \<or> d = 27 \<or> d = 28 \<or> d = 29
      \<or> d = 30 \<or> d = 31" by simp
  then show ?thesis
    by (elim disjE) (simp_all add: pad2_values parse_day_def digit_val_def)
qed

lemma days_in_month_le_31: "days_in_month y m \<le> 31"
  by (simp add: days_in_month_def)

lemma strptime_strftime:
  assumes "valid_datetime d"
  shows "strptime_ymd (strftime_ymd d) = Some (midnight d)"
proof -
  have y: "0 \<le> year d" "year d \<le> 9999" "1 \<le> year d" and m: "1 \<le> month d" "month d \<le> 12"
    and dd: "1 \<le> day d" "day d \<le> days_in_month (year d) (month d)"
    using assms by (simp_all add: valid_datetime_def)
  have d31: "day d \<le> 31" using dd(2) days_in_month_le_31 [of "year d" "month d"] by simp
  have 1: "parse_year (strftime_ymd d) = Some (year d, ''-'' @ pad2 (month d) @ ''-'' @ pad2 (day d))"
    unfolding strftime_ymd_def using y(1,2) by (rule parse_year_pad4)
  have 2: "parse_month (pad2 (month d) @ CHR ''-'' # pad2 (day d)) = Some (month d, pad2 (day d))"
    using parse_month_pad2 [OF m, of "pad2 (day d)"] by simp
  have 3: "parse_day (pad2 (day d)) = Some (day d, [])"
    using dd(1) d31 by (rule parse_day_pad2)
  have 4: "\<not> (year d < 1 \<or> days_in_month (year d) (month d) < day d)"
    using y(3) dd(2) by simp
  have "strptime_ymd (strftime_ymd d) =
          Some \<lparr>year = year d, month = month d, day = day d, hour = 0, minute = 0, second = 0\<rparr>"
    unfolding strptime_ymd_def by (simp only: 1 2 3 4 option.case prod.case expect_dash.simps
        append_Cons append_Nil if_True if_False not_False_eq_True not_not not_True_eq_False refl)
  then show ?thesis by (simp add: midnight_def)
qed

section \<open>Properties of the budget status\<close>

lemma datetime_le_midnight: "datetime_le (midnight a) (midnight b) = date_le a b"
  by (simp add: datetime_le_def midnight_def date_le_def) linarith

lemma date_le_refl: "date_le a a"
  by (simp add: date_le_def)

lemma date_le_trans: "date_le a b \<Longrightarrow> date_le b c \<Longrightarrow> date_le a c"
  unfolding date_le_def by linarith

lemma prev_day_date_le: "prev_day d = Inr d' \<Longrightarrow> date_le d' d"
  by (auto simp: prev_day_def date_le_def split: if_splits)

lemma minus_days_date_le: "minus_days d k = Inr d' \<Longrightarrow> date_le d' d"
proof (induction k arbitrary: d)
  case 0
  then show ?case by (simp add: date_le_refl)
next
  case (Suc k)
  then obtain d1 where p: "prev_day d = Inr d1" and m: "minus_days d1 k = Inr d'"
    by (cases "prev_day d") simp_all
  show ?case using date_le_trans [OF Suc.IH [OF m] prev_day_date_le [OF p]] .
qed

lemma weekday_range: "0 \<le> weekday d \<and> weekday d < 7"
  by (simp add: weekday_def)

lemma weekday_le_ordinal: "1 \<le> toordinal d \<Longrightarrow> weekday d < toordinal d"
proof -
  assume a: "1 \<le> toordinal d"
  have "toordinal d + 6 = (toordinal d - 1) + 7" by simp
  then have "(toordinal d + 6) mod 7 = (toordinal d - 1) mod 7"
    by (simp only: mod_add_self2)
  also have "\<dots> \<le> toordinal d - 1" using a by (intro zmod_le_nonneg_dividend) simp
  finally show ?thesis by (simp add: weekday_def)
qed

lemma weekday_of_monday:
  "toordinal m = toordinal d - weekday d \<Longrightarrow> weekday m = 0"
proof -
  assume "toordinal m = toordinal d - weekday d"
  then have "toordinal m + 6 = (toordinal d + 6) - (toordinal d + 6) mod 7"
    by (simp add: weekday_def)
  also have "\<dots> = 7 * ((toordinal d + 6) div 7)"
    by (simp add: minus_mod_eq_mult_div)
  finally show ?thesis by (simp add: weekday_def)
qed

lemma filter_in_range_all_parse:
  "list_all date_parses xs \<Longrightarrow>
   filter_in_range start end xs = Some (filter (in_range start end) xs)"
  by (induction xs) (auto simp: in_range_def date_parses_def split: option.splits)

lemma get_total_spent_window:
  assumes "strptime_ymd S = Some start" and "strptime_ymd E = Some end"
    and "S \<noteq> []" and "E \<noteq> []"
    and "list_all date_parses (filter (\<lambda>x. e_category x = c) exps)"
  shows "get_total_spent exps (Some c) (Some S) (Some E) =
           sum_list (map e_amount
             (filter (\<lambda>x. e_category x = c \<and> in_range start end x) exps))"
proof -
  have "filter_by_dates S E (filter (\<lambda>x. e_category x = c) exps) =
          Some (filter (in_range start end) (filter (\<lambda>x. e_category x = c) exps))"
    using assms(1,2) filter_in_range_all_parse [OF assms(5)] by (simp add: filter_by_dates_def)
  moreover have "filter (in_range start end) (filter (\<lambda>x. e_category x = c) exps) =
                 filter (\<lambda>x. e_category x = c \<and> in_range start end x) exps"
    by simp
  ultimately show ?thesis using assms(3,4) by (simp add: get_total_spent_def Let_def)
qed

lemma strftime_ymd_nonempty: "strftime_ymd d \<noteq> []"
  by (simp add: strftime_ymd_def pad4_def)

lemma valid_first_of_month: "valid_datetime d \<Longrightarrow> valid_datetime (d\<lparr>day := 1\<rparr>)"
  using days_in_month_pos [of "year d" "month d"] by (simp add: valid_datetime_def)

lemma period_window_ok:
  assumes "valid_datetime now"
  shows "\<exists>start. period_window now period = Inr (strftime_ymd start, strftime_ymd now) \<and>
           valid_datetime start \<and> date_le start now \<and>
           (period = ''daily'' \<longrightarrow> start = now) \<and>
           (period = ''weekly'' \<longrightarrow> toordinal start = toordinal now - weekday now) \<and>
           (period \<noteq> ''daily'' \<and> period \<noteq> ''weekly'' \<longrightarrow> start = now\<lparr>day := 1\<rparr>)"
proof (cases "period = ''daily''")
  case True
  then show ?thesis using assms
    by (intro exI [of _ now]) (simp add: period_window_def date_le_refl)
next
  case nd: False
  show ?thesis
  proof (cases "period = ''weekly''")
    case True
    have "int (nat (weekday now)) = weekday now" using weekday_range [of now] by simp
    moreover have "weekday now < toordinal now"
      using toordinal_pos [OF assms] by (rule weekday_le_ordinal)
    ultimately have "int (nat (weekday now)) < toordinal now" by simp
    from minus_days_ok [OF assms this] obtain d' where
      d': "minus_days now (nat (weekday now)) = Inr d'" "valid_datetime d'"
          "toordinal d' = toordinal now - int (nat (weekday now))" by blast
    have "date_le d' now" using d'(1) by (rule minus_days_date_le)
    moreover have "toordinal d' = toordinal now - weekday now"
      using d'(3) weekday_range [of now] by simp
    moreover have "period_window now period = Inr (strftime_ymd d', strftime_ymd now)"
      using True d'(1) by (simp add: period_window_def bind_err_def)
    ultimately show ?thesis using True d'(2) by (intro exI [of _ d']) simp
  next
    case False
    have "date_le (now\<lparr>day := 1\<rparr>) now" using assms by (simp add: date_le_def valid_datetime_def)
    moreover have "period_window now period = Inr (strftime_ymd (now\<lparr>day := 1\<rparr>), strftime_ymd now)"
      using nd False by (simp add: period_window_def)
    ultimately show ?thesis using nd False valid_first_of_month [OF assms]
      by (intro exI [of _ "now\<lparr>day := 1\<rparr>"]) simp
  qed
qed

text \<open>
  Claim C3. For every valid current datetime, the window of a period is a pair of
  formatted dates that ends today. For the period daily it starts today. For weekly it
  starts on the Monday on or before today that is less than seven days back. For
  monthly (and for any period other than daily and weekly) it starts on day 1 of the
  current month. Both bounds parse back to the midnight of their day, the start is not
  after the end, an expense dated on either bound is in the window, and when the dates
  of the category's expenses parse, the spending of the period is the sum over the
  category's expenses whose date is in the window.
\<close>

theorem period_window_resolution:
  assumes "valid_datetime now"
  shows "\<exists>start.
           period_window now period = Inr (strftime_ymd start, strftime_ymd now) \<and>
           (period = ''daily'' \<longrightarrow> start = now) \<and>
           (period = ''weekly'' \<longrightarrow>
              valid_datetime start \<and> weekday start = 0 \<and>
              toordinal start \<le> toordinal now \<and> toordinal now < toordinal start + 7) \<and>
           (period \<noteq> ''daily'' \<and> period \<noteq> ''weekly'' \<longrightarrow> start = now\<lparr>day := 1\<rparr>) \<and>
           strptime_ymd (strftime_ymd start) = Some (midnight start) \<and>
           strptime_ymd (strftime_ymd now) = Some (midnight now) \<and>
           datetime_le (midnight start) (midnight now) \<and>
           (\<forall>x. strptime_ymd (e_date x) = Some (midnight start) \<or>
                strptime_ymd (e_date x) = Some (midnight now) \<longrightarrow>
                in_range (midnight start) (midnight now) x) \<and>
           (list_all date_parses (filter (\<lambda>x. e_category x = c) exps) \<longrightarrow>
              get_total_spent_by_period now exps c period =
                Inr (sum_list (map e_amount
                  (filter (\<lambda>x. e_category x = c \<and> in_range (midnight start) (midnight now) x)
                     exps))))"
proof -
  from period_window_ok [OF assms, of period] obtain start where
    w: "period_window now period = Inr (strftime_ymd start, strftime_ymd now)"
    and v: "valid_datetime start" and le: "date_le start now"
    and daily: "period = ''daily'' \<longrightarrow> start = now"
    and weekly: "period = ''weekly'' \<longrightarrow> toordinal start = toordinal now - weekday now"
    and other: "period \<noteq> ''daily'' \<and> period \<noteq> ''weekly'' \<longrightarrow> start = now\<lparr>day := 1\<rparr>"
    by blast
  have ps: "strptime_ymd (strftime_ymd start) = Some (midnight start)"
    using v by (rule strptime_strftime)
  have pn: "strptime_ymd (strftime_ymd now) = Some (midnight now)"
    using assms by (rule strptime_strftime)
  have dl: "datetime_le (midnight start) (midnight now)"
    using le by (simp add: datetime_le_midnight)
  have rf: "\<And>a. datetime_le (midnight a) (midnight a)"
    by (simp add: datetime_le_midnight date_le_refl)
  have wk: "period = ''weekly'' \<longrightarrow>
              valid_datetime start \<and> weekday start = 0 \<and>
              toordinal start \<le> toordinal now \<and> toordinal now < toordinal start + 7"
  proof
    assume "period = ''weekly''"
    then have o: "toordinal start = toordinal now - weekday now" using weekly by simp
    then have "weekday start = 0" by (rule weekday_of_monday)
    then show "valid_datetime start \<and> weekday start = 0 \<and>
              toordinal start \<le> toordinal now \<and> toordinal now < toordinal start + 7"
      using v o weekday_range [of now] by simp
  qed
  have incl: "\<forall>x. strptime_ymd (e_date x) = Some (midnight start) \<or>
                strptime_ymd (e_date x) = Some (midnight now) \<longrightarrow>
                in_range (midnight start) (midnight now) x"
    using dl rf by (auto simp: in_range_def)
  have tot: "list_all date_parses (filter (\<lambda>x. e_category x = c) exps) \<longrightarrow>
              get_total_spent_by_period now exps c period =
                Inr (sum_list (map e_amount
                  (filter (\<lambda>x. e_category x = c \<and> in_range (midnight start) (midnight now) x)
                     exps)))"
  proof
    assume "list_all date_parses (filter (\<lambda>x. e_category x = c) exps)"
    from get_total_spent_window [OF ps pn strftime_ymd_nonempty strftime_ymd_nonempty this]
    show "get_total_spent_by_period now exps c period =
                Inr (sum_list (map e_amount
                  (filter (\<lambda>x. e_category x = c \<and> in_range (midnight start) (midnight now) x)
                     exps)))"
      using w by (simp add: get_total_spent_by_period_def bind_err_def)
  qed
  show ?thesis
    using w daily wk other ps pn dl incl tot by (intro exI [of _ start]) blast
qed

lemma valid_now1: "valid_datetime now1"
  by (simp add: now1_def valid_datetime_def days_in_month_def)

lemma ledger1_parses: "list_all date_parses ledger1"
  by (simp add: ledger1_def date_parses_def parse_defs)

lemma strftime_now1: "strftime_ymd now1 = ''2024-01-17''"
  by (simp add: now1_def strftime_ymd_def pad4_def pad2_def digit_char_def)

lemma weekday_now1: "weekday now1 = 2"
  by (simp add: now1_def weekday_def toordinal_def days_before_year_def days_before_month_def)

lemma period_window_now1:
  "period_window now1 ''daily'' = Inr (''2024-01-17'', ''2024-01-17'')"
  "period_window now1 ''weekly'' = Inr (''2024-01-15'', ''2024-01-17'')"
  "period_window now1 ''monthly'' = Inr (''2024-01-01'', ''2024-01-17'')"
  by (simp_all add: period_window_def weekday_now1 strftime_now1 eval_nat_numeral bind_err_def)
     (simp_all add: now1_def prev_day_def strftime_ymd_def pad4_def pad2_def digit_char_def)

lemma spent_now1:
  "get_total_spent_by_period now1 ledger1 FOOD ''weekly'' = Inr 50"
  "get_total_spent_by_period now1 ledger1 FOOD ''monthly'' = Inr 50"
  "get_total_spent_by_period now1 ledger1 FOOD ''daily'' = Inr 0"
  "get_total_spent_by_period now1 ledger1 BILLS ''daily'' = Inr 0"
  by (simp_all add: get_total_spent_by_period_def period_window_now1 bind_err_def
        get_total_spent_def filter_by_dates_def ledger1_def parse_defs datetime_le_def)

theorem period_window_resolution_witness:
  "valid_datetime now1 \<and>
   list_all date_parses (filter (\<lambda>x. e_category x = FOOD) ledger1) \<and>
   period_window now1 ''daily'' = Inr (''2024-01-17'', ''2024-01-17'') \<and>
   period_window now1 ''weekly'' = Inr (''2024-01-15'', ''2024-01-17'') \<and>
   period_window now1 ''monthly'' = Inr (''2024-01-01'', ''2024-01-17'') \<and>
   get_total_spent_by_period now1 ledger1 FOOD ''weekly'' = Inr 50 \<and>
   (\<exists>start. period_window now1 ''weekly'' = Inr (strftime_ymd start, strftime_ymd now1) \<and>
      weekday start = 0 \<and> toordinal start \<le> toordinal now1 \<and>
      toordinal now1 < toordinal start + 7 \<and>
      get_total_spent_by_period now1 ledger1 FOOD ''weekly'' =
        Inr (sum_list (map e_amount
          (filter (\<lambda>x. e_category x = FOOD \<and> in_range (midnight start) (midnight now1) x)
             ledger1))))"
proof -
  have p: "list_all date_parses (filter (\<lambda>x. e_category x = FOOD) ledger1)"
    by (simp add: ledger1_def date_parses_def parse_defs)
  from period_window_resolution [OF valid_now1, of "''weekly''" FOOD ledger1] obtain start where
    a: "period_window now1 ''weekly'' = Inr (strftime_ymd start, strftime_ymd now1)"
    and b: "''weekly'' = ''weekly'' \<longrightarrow>
              valid_datetime start \<and> weekday start = 0 \<and>
              toordinal start \<le> toordinal now1 \<and> toordinal now1 < toordinal start + 7"
    and c: "list_all date_parses (filter (\<lambda>x. e_category x = FOOD) ledger1) \<longrightarrow>
              get_total_spent_by_period now1 ledger1 FOOD ''weekly'' =
                Inr (sum_list (map e_amount
                  (filter (\<lambda>x. e_category x = FOOD \<and> in_range (midnight start) (midnight now1) x)
                     ledger1)))"
    by blast
  have "\<exists>start. period_window now1 ''weekly'' = Inr (strftime_ymd start, strftime_ymd now1) \<and>
      weekday start = 0 \<and> toordinal start \<le> toordinal now1 \<and>
      toordinal now1 < toordinal start + 7 \<and>
      get_total_spent_by_period now1 ledger1 FOOD ''weekly'' =
        Inr (sum_list (map e_amount
          (filter (\<lambda>x. e_category x = FOOD \<and> in_range (midnight start) (midnight now1) x)
             ledger1)))"
    using a b c p by (intro exI [of _ start]) blast
  then show ?thesis
    using valid_now1 p period_window_now1 spent_now1(1) by blast
qed

lemma round_half_even_error: "\<bar>of_int (round_half_even y) - y\<bar> \<le> 1 / 2"
proof -
  define f where "f = \<lfloor>y\<rfloor>"
  define r where "r = y - of_int f"
  have r0: "0 \<le> r" and r1: "r < 1"
    unfolding r_def f_def by linarith+
  have y: "y = of_int f + r" by (simp add: r_def)
  have "round_half_even y = f \<and> r \<le> 1 / 2 \<or> round_half_even y = f + 1 \<and> 1 / 2 \<le> r"
    unfolding round_half_even_def Let_def f_def [symmetric] r_def [symmetric]
    by (cases "r < 1 / 2"; cases "1 / 2 < r"; cases "even f"; simp)
  then show ?thesis
  proof
    assume "round_half_even y = f \<and> r \<le> 1 / 2"
    then show ?thesis using r0 y by simp
  next
    assume "round_half_even y = f + 1 \<and> 1 / 2 \<le> r"
    then show ?thesis using r1 y by simp
  qed
qed

lemma py_round2_error: "\<bar>py_round2 x - x\<bar> \<le> 1 / 200"
proof -
  have "\<bar>of_int (round_half_even (x * 100)) - x * 100\<bar> \<le> 1 / 2"
    by (rule round_half_even_error)
  then have "\<bar>of_int (round_half_even (x * 100)) / 100 - x\<bar> * 100 \<le> 1 / 2"
    by (simp add: abs_if field_simps split: if_splits)
  then show ?thesis by (simp add: py_round2_def)
qed

lemma py_round2_hundredths: "\<exists>k::int. py_round2 x * 100 = of_int k"
  by (simp add: py_round2_def)

lemma py_round2_0: "py_round2 0 = 0"
  by (simp add: py_round2_def round_half_even_def)

lemma get_total_spent_by_period_returns:
  assumes "valid_datetime now"
  shows "\<exists>spent. get_total_spent_by_period now exps category period = Inr spent"
proof -
  from period_window_ok [OF assms, of period] obtain start where
    "period_window now period = Inr (strftime_ymd start, strftime_ymd now)" by blast
  then show ?thesis by (simp add: get_total_spent_by_period_def bind_err_def)
qed

text \<open>
  Claim C2. For every valid current datetime and every budget stored under the id of
  a category and period, the spending of the period is computed and
  \<^verbatim>\<open>get_budget_status\<close> returns a status with the budget's amount, that spending, the
  remaining amount equal to the budget amount minus the spending, and the over-budget
  flag true exactly when the spending exceeds the amount. When the amount is positive
  the percentage is the spending divided by the amount times 100, rounded to two
  decimals: a multiple of 1/100 at most 1/200 away. When the amount is 0 it is 0.
\<close>

theorem get_budget_status_fields:
  assumes "valid_datetime now"
    and "dict_get (budgets t) (budget_id category period) = Some b"
  shows "\<exists>spent st.
           get_total_spent_by_period now (expenses t) category period = Inr spent \<and>
           get_budget_status now t category period = Inr (Has_budget st) \<and>
           s_budget_amount st = b_amount b \<and> s_spent st = spent \<and> s_period st = period \<and>
           s_remaining st = b_amount b - spent \<and>
           s_is_over_budget st = (b_amount b < spent) \<and>
           (0 < b_amount b \<longrightarrow>
              s_percentage_used st = py_round2 (spent / b_amount b * 100) \<and>
              (\<exists>k::int. s_percentage_used st * 100 = of_int k) \<and>
              \<bar>s_percentage_used st - spent / b_amount b * 100\<bar> \<le> 1 / 200) \<and>
           (b_amount b = 0 \<longrightarrow> s_percentage_used st = 0)"
proof -
  from get_total_spent_by_period_returns [OF assms(1)] obtain spent where
    sp: "get_total_spent_by_period now (expenses t) category period = Inr spent" by blast
  define st where "st =
     \<lparr>s_budget_amount = b_amount b, s_spent = spent, s_remaining = b_amount b - spent,
      s_percentage_used = py_round2 (if 0 < b_amount b then (spent / b_amount b) * 100 else 0),
      s_is_over_budget = (b_amount b < spent), s_period = period\<rparr>"
  have gs: "get_budget_status now t category period = Inr (Has_budget st)"
    using assms(2) sp by (simp add: get_budget_status_def bind_err_def Let_def st_def)
  have pos: "0 < b_amount b \<longrightarrow>
              s_percentage_used st = py_round2 (spent / b_amount b * 100) \<and>
              (\<exists>k::int. s_percentage_used st * 100 = of_int k) \<and>
              \<bar>s_percentage_used st - spent / b_amount b * 100\<bar> \<le> 1 / 200"
    using py_round2_hundredths [of "spent / b_amount b * 100"]
      py_round2_error [of "spent / b_amount b * 100"]
    by (simp add: st_def)
  have zero: "b_amount b = 0 \<longrightarrow> s_percentage_used st = 0"
    by (simp add: st_def py_round2_0)
  have fields: "s_budget_amount st = b_amount b" "s_spent st = spent" "s_period st = period"
    "s_remaining st = b_amount b - spent" "s_is_over_budget st = (b_amount b < spent)"
    by (simp_all add: st_def)
  show ?thesis
    using sp gs fields pos zero by (intro exI [of _ spent] exI [of _ st]) blast
qed

lemma tracker1_food_monthly:
  "dict_get (budgets tracker1) (budget_id FOOD ''monthly'') = Some (new_Budget FOOD 100 ''monthly'')"
  by (simp add: tracker1_def dict_get_def budget_id_def)

lemma tracker1_bills_daily:
  "dict_get (budgets tracker1) (budget_id BILLS ''daily'') = Some (new_Budget BILLS 0 ''daily'')"
  by (simp add: tracker1_def dict_get_def budget_id_def)

lemma py_round2_50: "py_round2 50 = 50"
  by (simp add: py_round2_def round_half_even_def)

theorem get_budget_status_fields_witness:
  "valid_datetime now1 \<and>
   dict_get (budgets tracker1) (budget_id FOOD ''monthly'') = Some (new_Budget FOOD 100 ''monthly'') \<and>
   dict_get (budgets tracker1) (budget_id BILLS ''daily'') = Some (new_Budget BILLS 0 ''daily'') \<and>
   get_budget_status now1 tracker1 FOOD ''monthly'' =
     Inr (Has_budget \<lparr>s_budget_amount = 100, s_spent = 50, s_remaining = 50,
            s_percentage_used = 50, s_is_over_budget = False, s_period = ''monthly''\<rparr>) \<and>
   (\<exists>st. get_budget_status now1 tracker1 BILLS ''daily'' = Inr (Has_budget st) \<and>
      s_percentage_used st = 0 \<and> s_remaining st = 0 \<and> s_is_over_budget st = False)"
proof -
  have e: "expenses tracker1 = ledger1" by (simp add: tracker1_def)
  from get_budget_status_fields [OF valid_now1 tracker1_food_monthly] obtain spent st where
    a: "get_total_spent_by_period now1 (expenses tracker1) FOOD ''monthly'' = Inr spent"
       "get_budget_status now1 tracker1 FOOD ''monthly'' = Inr (Has_budget st)"
       "s_budget_amount st = b_amount (new_Budget FOOD 100 ''monthly'')" "s_spent st = spent"
       "s_period st = ''monthly''"
       "s_remaining st = b_amount (new_Budget FOOD 100 ''monthly'') - spent"
       "s_is_over_budget st = (b_amount (new_Budget FOOD 100 ''monthly'') < spent)"
       "0 < b_amount (new_Budget FOOD 100 ''monthly'') \<longrightarrow>
          s_percentage_used st = py_round2 (spent / b_amount (new_Budget FOOD 100 ''monthly'') * 100) \<and>
          (\<exists>k::int. s_percentage_used st * 100 = of_int k) \<and>
          \<bar>s_percentage_used st - spent / b_amount (new_Budget FOOD 100 ''monthly'') * 100\<bar> \<le> 1 / 200"
    by blast
  have s50: "spent = 50" using a(1) spent_now1(2) e by simp
  have "st = \<lparr>s_budget_amount = 100, s_spent = 50, s_remaining = 50,
            s_percentage_used = 50, s_is_over_budget = False, s_period = ''monthly''\<rparr>"
    using a(3-8) s50 by (simp add: new_Budget_def py_round2_50)
  then have 1: "get_budget_status now1 tracker1 FOOD ''monthly'' =
     Inr (Has_budget \<lparr>s_budget_amount = 100, s_spent = 50, s_remaining = 50,
            s_percentage_used = 50, s_is_over_budget = False, s_period = ''monthly''\<rparr>)"
    using a(2) by simp
  from get_budget_status_fields [OF valid_now1 tracker1_bills_daily] obtain spent2 st2 where
    b: "get_total_spent_by_period now1 (expenses tracker1) BILLS ''daily'' = Inr spent2"
       "get_budget_status now1 tracker1 BILLS ''daily'' = Inr (Has_budget st2)"
       "s_remaining st2 = b_amount (new_Budget BILLS 0 ''daily'') - spent2"
       "s_is_over_budget st2 = (b_amount (new_Budget BILLS 0 ''daily'') < spent2)"
       "b_amount (new_Budget BILLS 0 ''daily'') = 0 \<longrightarrow> s_percentage_used st2 = 0"
    by blast
  have s0: "spent2 = 0" using b(1) spent_now1(4) e by simp
  have 2: "\<exists>st. get_budget_status now1 tracker1 BILLS ''daily'' = Inr (Has_budget st) \<and>
      s_percentage_used st = 0 \<and> s_remaining st = 0 \<and> s_is_over_budget st = False"
    using b(2-5) s0 by (intro exI [of _ st2]) (simp add: new_Budget_def)
  show ?thesis
    using valid_now1 tracker1_food_monthly tracker1_bills_daily 1 2 by blast
qed

section \<open>Properties of the totals by category\<close>

lemma category_value_inj: "category_value c = category_value c' \<Longrightarrow> c = c'"
  by (cases c; cases c'; simp)

lemma in_all_categories: "c \<in> set all_categories"
  by (cases c) (simp_all add: all_categories_def)

lemma dict_get_present: "k \<in> set (map fst d) \<Longrightarrow> \<exists>v. dict_get d k = Some v"
  by (induction d) (auto simp: dict_get_def)

lemma sum_dict_set:
  "dict_get d k = Some old \<Longrightarrow>
   sum_list (map snd (dict_set k v d)) = sum_list (map snd d) - old + (v :: rat)"
  by (induction d) (auto simp: dict_get_def)

lemma keys_dict_set_present:
  "dict_get d k = Some old \<Longrightarrow> map fst (dict_set k v d) = map fst d"
  by (induction d) (auto simp: dict_get_def)

lemma add_totals_ok:
  assumes "map fst d = map category_value all_categories"
  shows "\<exists>d'. add_totals d xs = Inr d' \<and> map fst d' = map fst d \<and>
           sum_list (map snd d') = sum_list (map snd d) + sum_list (map e_amount xs) \<and>
           (\<forall>c. \<exists>v. dict_get d (category_value c) = Some v \<and>
                 dict_get d' (category_value c) =
                   Some (v + sum_list (map e_amount (filter (\<lambda>x. e_category x = c) xs))))"
  using assms
proof (induction xs arbitrary: d)
  case Nil
  have "\<And>c. \<exists>v. dict_get d (category_value c) = Some v"
    using Nil in_all_categories by (intro dict_get_present) simp
  then show ?case by simp
next
  case (Cons x xs)
  let ?k = "category_value (e_category x)"
  have pres: "\<And>c. \<exists>v. dict_get d (category_value c) = Some v"
    using Cons.prems in_all_categories by (intro dict_get_present) simp
  then obtain old where old: "dict_get d ?k = Some old" by blast
  let ?d1 = "dict_set ?k (old + e_amount x) d"
  have k1: "map fst ?d1 = map fst d" using old by (rule keys_dict_set_present)
  then have "map fst ?d1 = map category_value all_categories" using Cons.prems by simp
  from Cons.IH [OF this] obtain d' where
    r: "add_totals ?d1 xs = Inr d'" "map fst d' = map fst ?d1"
       "sum_list (map snd d') = sum_list (map snd ?d1) + sum_list (map e_amount xs)"
    and per: "\<And>c. \<exists>v. dict_get ?d1 (category_value c) = Some v \<and>
                 dict_get d' (category_value c) =
                   Some (v + sum_list (map e_amount (filter (\<lambda>x. e_category x = c) xs)))"
    by blast
  have 1: "add_totals d (x # xs) = Inr d'" using old r(1) by simp
  have 2: "map fst d' = map fst d" using r(2) k1 by simp
  have 3: "sum_list (map snd d') = sum_list (map snd d) + sum_list (map e_amount (x # xs))"
    using r(3) sum_dict_set [OF old, of "old + e_amount x"] by simp
  have 4: "\<exists>v. dict_get d (category_value c) = Some v \<and>
             dict_get d' (category_value c) =
               Some (v + sum_list (map e_amount (filter (\<lambda>x. e_category x = c) (x # xs))))" for c
  proof (cases "c = e_category x")
    case True
    have "dict_get ?d1 (category_value c) = Some (old + e_amount x)"
      using True by (simp add: dict_get_dict_set_same)
    then show ?thesis using per [of c] old True by (simp add: add.assoc)
  next
    case False
    then have "category_value c \<noteq> ?k" using category_value_inj by blast
    then have "dict_get ?d1 (category_value c) = dict_get d (category_value c)"
      by (rule dict_get_dict_set_other)
    then show ?thesis using per [of c] False by auto
  qed
  show ?case using 1 2 3 4 by blast
qed

text \<open>
  Claim C5. Called without date bounds, \<^verbatim>\<open>get_total_spent_by_category\<close> returns a
  dictionary whose keys are the eight category names in the order of the enumeration;
  the value of each category is the sum of the amounts of the ledger's expenses of that
  category, hence zero for a category without expenses; and the values sum to the
  unfiltered total of the ledger.
\<close>

theorem get_total_spent_by_category_all:
  "\<exists>totals. get_total_spent_by_category exps None None = Inr totals \<and>
       map fst totals = [''Food'', ''Transportation'', ''Entertainment'', ''Shopping'',
                         ''Bills'', ''Education'', ''Healthcare'', ''Other''] \<and>
       (\<forall>c. dict_get totals (category_value c) =
              Some (sum_list (map e_amount (filter (\<lambda>x. e_category x = c) exps)))) \<and>
       sum_list (map snd totals) = get_total_spent exps None None None"
proof -
  let ?d = "map (\<lambda>category. (category_value category, 0 :: rat)) all_categories"
  have k: "map fst ?d = map category_value all_categories" by (simp add: comp_def)
  have z: "dict_get ?d (category_value c) = Some v \<Longrightarrow> v = 0" for c v
    by (auto simp: dict_get_def all_categories_def split: if_splits)
  have s0: "sum_list (map snd ?d) = 0" by (simp add: all_categories_def)
  from add_totals_ok [OF k, of exps] obtain d' where
    r: "add_totals ?d exps = Inr d'" "map fst d' = map fst ?d"
       "sum_list (map snd d') = sum_list (map snd ?d) + sum_list (map e_amount exps)"
    and per: "\<And>c. \<exists>v. dict_get ?d (category_value c) = Some v \<and>
                 dict_get d' (category_value c) =
                   Some (v + sum_list (map e_amount (filter (\<lambda>x. e_category x = c) exps)))"
    by blast
  have 1: "get_total_spent_by_category exps None None = Inr d'"
    using r(1) by (simp add: get_total_spent_by_category_def)
  have 2: "map fst d' = [''Food'', ''Transportation'', ''Entertainment'', ''Shopping'',
                         ''Bills'', ''Education'', ''Healthcare'', ''Other'']"
    using r(2) by (simp add: all_categories_def)
  have 3: "dict_get d' (category_value c) =
              Some (sum_list (map e_amount (filter (\<lambda>x. e_category x = c) exps)))" for c
    using per [of c] z [of c] by auto
  have 4: "sum_list (map snd d') = get_total_spent exps None None None"
    using r(3) s0 by (simp add: get_total_spent_def)
  show ?thesis using 1 2 3 4 by (intro exI [of _ d']) simp
qed

theorem get_total_spent_by_category_all_witness:
  "\<exists>totals. get_total_spent_by_category ledger1 None None = Inr totals \<and>
       map fst totals = [''Food'', ''Transportation'', ''Entertainment'', ''Shopping'',
                         ''Bills'', ''Education'', ''Healthcare'', ''Other''] \<and>
       dict_get totals ''Food'' = Some 57 \<and> dict_get totals ''Bills'' = Some 20 \<and>
       dict_get totals ''Other'' = Some 0 \<and>
       sum_list (map snd totals) = 77 \<and> get_total_spent ledger1 None None None = 77"
proof -
  from get_total_spent_by_category_all [of ledger1] obtain totals where
    t: "get_total_spent_by_category ledger1 None None = Inr totals"
       "map fst totals = [''Food'', ''Transportation'', ''Entertainment'', ''Shopping'',
                         ''Bills'', ''Education'', ''Healthcare'', ''Other'']"
       "\<And>c. dict_get totals (category_value c) =
              Some (sum_list (map e_amount (filter (\<lambda>x. e_category x = c) ledger1)))"
       "sum_list (map snd totals) = get_total_spent ledger1 None None None"
    by auto
  have g: "get_total_spent ledger1 None None None = 77"
    by (simp add: get_total_spent_def ledger1_def)
  have "dict_get totals ''Food'' = Some 57" "dict_get totals ''Bills'' = Some 20"
    "dict_get totals ''Other'' = Some 0"
    using t(3) [of FOOD] t(3) [of BILLS] t(3) [of OTHER] by (simp_all add: ledger1_def)
  then show ?thesis using t(1,2,4) g by (intro exI [of _ totals]) simp
qed

end
